theory Spec2Isabelle
  imports Complex_Main "HOL-Library.Product_Lexorder"
begin

section \<open>Promotions: the model of \<^verbatim>\<open>service/models.py\<close>\<close>

subsection \<open>Data\<close>

text \<open>
  \<^verbatim>\<open>class TypeOfPromo(Enum): Discount = 0; BOGOF = 1; Unknown = 3\<close>.
  The members are used as opaque tags; their numeric values are never read.
\<close>

datatype TypeOfPromo = Discount | BOGOF | Unknown

text \<open>
  A naive \<^verbatim>\<open>datetime.datetime\<close> (the columns are \<^verbatim>\<open>db.DateTime()\<close>, without
  time zone): its seven fields. Python orders two of them by these fields,
  lexicographically.
\<close>

record datetime =
  year :: nat
  month :: nat
  day :: nat
  hour :: nat
  minute :: nat
  second :: nat
  microsecond :: nat

definition dt_key :: "datetime \<Rightarrow> nat \<times> nat \<times> nat \<times> nat \<times> nat \<times> nat \<times> nat" where
  "dt_key d = (year d, month d, day d, hour d, minute d, second d, microsecond d)"

definition dt_le :: "datetime \<Rightarrow> datetime \<Rightarrow> bool" where
  "dt_le a b = (dt_key a \<le> dt_key b)"

definition dt_lt :: "datetime \<Rightarrow> datetime \<Rightarrow> bool" where
  "dt_lt a b = (dt_key a < dt_key b)"

definition dt_ge :: "datetime \<Rightarrow> datetime \<Rightarrow> bool" where
  "dt_ge a b = (dt_key a \<ge> dt_key b)"

definition dt_gt :: "datetime \<Rightarrow> datetime \<Rightarrow> bool" where
  "dt_gt a b = (dt_key a > dt_key b)"

text \<open>
  The exceptions the module raises or lets through. \<open>DataValidationError\<close> is the
  module's own class; the others are Python's.
\<close>

datatype exn =
    DataValidationError string
  | AttributeError string
  | KeyError string
  | TypeError
  | ValueError
  | UnboundLocalError
  | ZeroDivisionError
  | OverflowError

text \<open>
  A row of the table, with the types of the schema (lines 38-47): \<open>id\<close> is the
  primary key, \<open>None\<close> until the store assigns it (the field is named \<open>id_pk\<close>
  here, \<open>id\<close> being HOL's identity function); \<open>description\<close> is the one
  nullable column.
\<close>

record Promotion =
  id_pk :: "int option"
  product_name :: string
  category :: TypeOfPromo
  product_id :: int
  amount :: int
  description :: "string option"
  from_date :: datetime
  to_date :: datetime

text \<open>
  The record store behind \<^verbatim>\<open>db.session\<close>: the rows of the table in insertion order,
  as the session shows them, and the next primary key the store will hand out. An entity
  that is attached to the session (it was added by \<^verbatim>\<open>create\<close>, or loaded by a query) is
  the session's object for its row: assigning to its attributes changes that row, and
  the queries, which flush first, see the change. An entity that is not attached is no
  row of the table.
\<close>

record store =
  rows :: "Promotion list"
  next_id :: int

subsection \<open>create and update\<close>

text \<open>
  What a call of a method that mutates both the entity and the store leaves behind: the
  exception raised (if any), the entity after the call, the store after the call.
\<close>

record call_result =
  raised :: "exn option"
  entity :: Promotion
  db :: store

text \<open>
  \<^verbatim>\<open>create\<close> (lines 53-64): the id is cleared first, then the two checks, in the
  source's order, then \<^verbatim>\<open>db.session.add(self); db.session.commit()\<close>, which appends the
  row under a fresh primary key.
\<close>

definition create :: "Promotion \<Rightarrow> store \<Rightarrow> call_result" where
  "create self0 st =
     (let self = self0\<lparr>id_pk := None\<rparr> in
      if category self = Discount \<and> amount self > 100 then
        \<lparr>raised = Some (DataValidationError ''Discount cannot exceed 100%''),
         entity = self, db = st\<rparr>
      else if amount self \<le> 0 then
        \<lparr>raised = Some (DataValidationError ''amount must be grater than 0''),
         entity = self, db = st\<rparr>
      else
        (let self' = self\<lparr>id_pk := Some (next_id st)\<rparr> in
         \<lparr>raised = None, entity = self',
          db = st\<lparr>rows := rows st @ [self'], next_id := next_id st + 1\<rparr>\<rparr>))"


subsection \<open>Queries\<close>

text \<open>
  A query is a filter over the rows of the table, in the table's order. Every
  \<^verbatim>\<open>datetime.now()\<close> of the source is a reading of the clock of its own, made when the
  filter expression is built (once per call of the finder, not once per row): a finder
  that reads the clock twice takes the two readings \<open>n1\<close> and \<open>n2\<close>, in the order the
  source makes them.
\<close>

text \<open>\<^verbatim>\<open>find_by_availability\<close> (lines 219-241).\<close>

definition find_by_availability ::
    "bool \<Rightarrow> datetime \<Rightarrow> datetime \<Rightarrow> Promotion list \<Rightarrow> Promotion list" where
  "find_by_availability available n1 n2 tbl =
     (if available then
        filter (\<lambda>r. dt_ge (to_date r) n2) (filter (\<lambda>r. dt_le (from_date r) n1) tbl)
      else
        filter (\<lambda>r. dt_gt (from_date r) n1 \<or> dt_lt (to_date r) n2) tbl)"

text \<open>
  \<^verbatim>\<open>find_by_multi_attributes\<close> (lines 266-292). \<^verbatim>\<open>args\<close> is the dictionary of the
  request's parsed arguments. A criterion counts only when its key is in the dictionary
  and its value is not \<^verbatim>\<open>None\<close>, so each entry is an option here (\<open>None\<close> for both a
  missing key and a \<^verbatim>\<open>None\<close> value), holding a value of the column's type; the
  category comes as a member or as a string, and \<open>available\<close> holds the integer that
  \<^verbatim>\<open>int(args["available"])\<close> yields.
\<close>

datatype category_value = Member TypeOfPromo | Name string

record find_args =
  category_arg :: "category_value option"
  product_name_arg :: "string option"
  product_id_arg :: "int option"
  from_date_arg :: "datetime option"
  to_date_arg :: "datetime option"
  available_arg :: "int option"

definition TypeOfPromo_members :: "(string \<times> TypeOfPromo) list" where
  "TypeOfPromo_members = [(''Discount'', Discount), (''BOGOF'', BOGOF), (''Unknown'', Unknown)]"

text \<open>\<^verbatim>\<open>category.split('.')[-1]\<close>: what follows the last dot, the whole string without one.\<close>

definition last_segment :: "string \<Rightarrow> string" where
  "last_segment s = rev (takeWhile (\<lambda>c. c \<noteq> CHR ''.'') (rev s))"

text \<open>\<^verbatim>\<open>TypeOfPromo[name]\<close>: the member of that name, or \<^verbatim>\<open>KeyError\<close>.\<close>

definition member_by_name :: "string \<Rightarrow> exn + TypeOfPromo" where
  "member_by_name name =
     (case map_of TypeOfPromo_members name of
        None \<Rightarrow> Inl (KeyError name)
      | Some c \<Rightarrow> Inr c)"

text \<open>Lines 269-273: the category the first filter compares with, if there is one.\<close>

definition category_criterion :: "category_value option \<Rightarrow> exn + TypeOfPromo option" where
  "category_criterion a =
     (case a of
        None \<Rightarrow> Inr None
      | Some (Member c) \<Rightarrow> Inr (Some c)
      | Some (Name s) \<Rightarrow>
          (case member_by_name (last_segment s) of
             Inl e \<Rightarrow> Inl e
           | Inr c \<Rightarrow> Inr (Some c)))"

definition find_by_multi_attributes ::
    "find_args \<Rightarrow> datetime \<Rightarrow> datetime \<Rightarrow> Promotion list \<Rightarrow> exn + Promotion list" where
  "find_by_multi_attributes args n1 n2 tbl =
     (case category_criterion (category_arg args) of
        Inl e \<Rightarrow> Inl e
      | Inr copt \<Rightarrow>
         (let result = tbl;
              result = (case copt of
                          None \<Rightarrow> result
                        | Some c \<Rightarrow> filter (\<lambda>r. category r = c) result);
              result = (case product_name_arg args of
                          None \<Rightarrow> result
                        | Some v \<Rightarrow> filter (\<lambda>r. product_name r = v) result);
              result = (case product_id_arg args of
                          None \<Rightarrow> result
                        | Some v \<Rightarrow> filter (\<lambda>r. product_id r = v) result);
              result = (case from_date_arg args of
                          None \<Rightarrow> result
                        | Some v \<Rightarrow> filter (\<lambda>r. from_date r = v) result);
              result = (case to_date_arg args of
                          None \<Rightarrow> result
                        | Some v \<Rightarrow> filter (\<lambda>r. to_date r = v) result);
              result = (case available_arg args of
                          None \<Rightarrow> result
                        | Some a \<Rightarrow>
                            if a > 0 then
                              filter (\<lambda>r. dt_ge (to_date r) n2)
                                (filter (\<lambda>r. dt_le (from_date r) n1) result)
                            else
                              filter (\<lambda>r. dt_gt (from_date r) n1 \<or> dt_gt n2 (to_date r)) result)
          in Inr result))"

subsection \<open>Python floats\<close>

text \<open>
  A Python float is an IEEE 754 binary64 number (a double); the model holds its exact
  value, a rational. \<open>nearest_double x\<close> is the double nearest to \<open>x\<close>, ties going to the
  even significand: above \<open>2 powi (- 1022)\<close> a double has 53 significant bits, so the
  doubles between \<open>2 powi e\<close> and \<open>2 powi (e + 1)\<close> are the multiples of
  \<open>2 powi (e - 52)\<close>; below, they are the multiples of \<open>2 powi (- 1074)\<close>.
  \<open>bit_length\<close> is Python's \<^verbatim>\<open>int.bit_length\<close>, and \<open>floor_log2 x\<close> is the integer
  \<open>e\<close> with \<open>2 powi e \<le> x < 2 powi (e + 1)\<close>, for a positive \<open>x\<close>.
\<close>

function bit_length :: "int \<Rightarrow> nat" where
  "bit_length n = (if n \<le> 0 then 0 else Suc (bit_length (n div 2)))"
  by pat_completeness auto
termination
  by (relation "measure nat") auto

declare bit_length.simps [simp del]

definition floor_log2 :: "rat \<Rightarrow> int" where
  "floor_log2 x =
     (if 1 \<le> x then int (bit_length \<lfloor>x\<rfloor>) - 1
      else - int (bit_length (\<lceil>1 / x\<rceil> - 1)))"

definition round_half_even :: "rat \<Rightarrow> int" where
  "round_half_even r =
     (let f = \<lfloor>r\<rfloor>; t = r - of_int f
      in if t < 1 / 2 then f else if 1 / 2 < t then f + 1 else if even f then f else f + 1)"

definition nearest_double :: "rat \<Rightarrow> rat" where
  "nearest_double x =
     (if x = 0 then 0
      else
        (let e = max (floor_log2 \<bar>x\<bar>) (- 1022);
             ulp = 2 powi (e - 52)
         in of_int (round_half_even (x / ulp)) * ulp))"

text \<open>
  An integer operand of a float division is converted to a float first: to the nearest
  double, or \<^verbatim>\<open>OverflowError\<close> when it rounds beyond the largest double, which is
  \<open>2 ^ 1024 - 2 ^ 971\<close> (so from \<open>2 ^ 1024 - 2 ^ 970\<close> on).
\<close>

definition float_of_int :: "int \<Rightarrow> exn + rat" where
  "float_of_int a =
     (if 2 ^ 1024 - 2 ^ 970 \<le> \<bar>a\<bar> then Inl OverflowError
      else Inr (nearest_double (of_int a)))"

text \<open>
  The division of two floats, the divisor not zero: the double nearest to the quotient.
  (The quotients below cannot exceed the largest double.)
\<close>

definition float_div :: "rat \<Rightarrow> rat \<Rightarrow> rat" where
  "float_div x y = nearest_double (x / y)"

subsection \<open>The best promotion\<close>

text \<open>
  \<^verbatim>\<open>find_best_promotion_for_product\<close> (lines 243-264). The benefit \<^verbatim>\<open>off\<close> is a Python
  float: \<^verbatim>\<open>amount / 100.\<close> or \<^verbatim>\<open>1. / amount\<close>, the integer \<^verbatim>\<open>amount\<close> converted to a
  float and then one float division; the second raises \<^verbatim>\<open>ZeroDivisionError\<close> when the
  divisor is zero. \<open>100\<close> and \<open>1\<close> are doubles. \<^verbatim>\<open>max_off\<close> starts as the integer \<open>0\<close>,
  and Python compares a float with an integer, or with a float, by their exact values.

  \<^verbatim>\<open>off\<close> is a local variable of the function, not of the loop body: it is unbound
  before the first assignment (\<open>None\<close> here, and reading it raises
  \<^verbatim>\<open>UnboundLocalError\<close>), and keeps the value of the last assignment afterwards.
\<close>

definition assign_off :: "Promotion \<Rightarrow> rat option \<Rightarrow> exn + rat option" where
  "assign_off promotion off =
     (if category promotion = Discount then
        (case float_of_int (amount promotion) of
           Inl e \<Rightarrow> Inl e
         | Inr x \<Rightarrow> Inr (Some (float_div x 100)))
      else if category promotion = BOGOF then
        (case float_of_int (amount promotion) of
           Inl e \<Rightarrow> Inl e
         | Inr x \<Rightarrow>
             if x = 0 then Inl ZeroDivisionError
             else Inr (Some (float_div 1 x)))
      else Inr off)"

fun best_loop ::
    "Promotion list \<Rightarrow> rat option \<Rightarrow> rat \<Rightarrow> Promotion option \<Rightarrow> exn + Promotion option" where
  "best_loop [] off max_off best_promotion = Inr best_promotion"
| "best_loop (promotion # rest) off max_off best_promotion =
     (case assign_off promotion off of
        Inl e \<Rightarrow> Inl e
      | Inr None \<Rightarrow> Inl UnboundLocalError
      | Inr (Some v) \<Rightarrow>
          if v > max_off then best_loop rest (Some v) v (Some promotion)
          else best_loop rest (Some v) max_off best_promotion)"

text \<open>Lines 247-253: the rows the loop runs over.\<close>

definition promotion_list :: "int \<Rightarrow> datetime \<Rightarrow> datetime \<Rightarrow> Promotion list \<Rightarrow> Promotion list" where
  "promotion_list pid n1 n2 tbl =
     filter (\<lambda>r. dt_ge (to_date r) n2)
       (filter (\<lambda>r. dt_le (from_date r) n1)
         (filter (\<lambda>r. product_id r = pid) tbl))"

definition find_best_promotion_for_product ::
    "int \<Rightarrow> datetime \<Rightarrow> datetime \<Rightarrow> Promotion list \<Rightarrow> exn + Promotion option" where
  "find_best_promotion_for_product pid n1 n2 tbl =
     best_loop (promotion_list pid n1 n2 tbl) None 0 None"

subsection \<open>Python values\<close>

text \<open>
  The values a request body, or an attribute of an instance, can hold. A dictionary is
  the list of its items, the keys distinct. Python does not type attributes:
  \<^verbatim>\<open>deserialize\<close> stores whatever value the body holds under a key, so the instance it
  fills is modelled by its attribute dictionary, from attribute names to values.
\<close>

datatype pyval =
    PNone
  | PBool bool
  | PInt int
  | PStr string
  | PDatetime datetime
  | PEnum TypeOfPromo
  | PList "pyval list"
  | PDict "(string \<times> pyval) list"

type_synonym attrs = "string \<Rightarrow> pyval option"


subsection \<open>ISO 8601 text of a timestamp\<close>

text \<open>
  \<^verbatim>\<open>datetime.isoformat\<close> and \<^verbatim>\<open>datetime.fromisoformat\<close> belong to Python's library.
  They are modelled for naive values. \<open>dec\<close> is the decimal numeral of a number and
  \<open>pad w\<close> is the format \<^verbatim>\<open>%0wd\<close>: zeros are put in front, nothing is cut off.
\<close>

definition digit_char :: "nat \<Rightarrow> char" where
  "digit_char k = char_of (48 + k)"

definition digit_of :: "char \<Rightarrow> nat option" where
  "digit_of c = (let n = of_char c :: nat in if 48 \<le> n \<and> n \<le> 57 then Some (n - 48) else None)"

fun dec :: "nat \<Rightarrow> string" where
  "dec n = (if n < 10 then [digit_char n] else dec (n div 10) @ [digit_char (n mod 10)])"

declare dec.simps [simp del]

definition pad :: "nat \<Rightarrow> nat \<Rightarrow> string" where
  "pad w n = replicate (w - length (dec n)) CHR ''0'' @ dec n"

fun digits_value :: "nat \<Rightarrow> string \<Rightarrow> nat option" where
  "digits_value acc [] = Some acc"
| "digits_value acc (c # cs) =
     (case digit_of c of None \<Rightarrow> None | Some d \<Rightarrow> digits_value (10 * acc + d) cs)"

definition parse_field :: "string \<Rightarrow> nat \<Rightarrow> nat \<Rightarrow> nat option" where
  "parse_field s i w =
     (let f = take w (drop i s) in if length f = w then digits_value 0 f else None)"

definition sep_at :: "string \<Rightarrow> nat \<Rightarrow> char \<Rightarrow> bool" where
  "sep_at s i c = (i < length s \<and> s ! i = c)"


text \<open>The fields of a \<^verbatim>\<open>datetime\<close> are in range: Python builds no other value.\<close>

definition is_leap :: "nat \<Rightarrow> bool" where
  "is_leap y = (y mod 4 = 0 \<and> (y mod 100 \<noteq> 0 \<or> y mod 400 = 0))"

definition days_in_month :: "nat \<Rightarrow> nat \<Rightarrow> nat" where
  "days_in_month y m =
     (if m = 2 then (if is_leap y then 29 else 28)
      else if m = 4 \<or> m = 6 \<or> m = 9 \<or> m = 11 then 30 else 31)"

definition valid_datetime :: "datetime \<Rightarrow> bool" where
  "valid_datetime d =
     (1 \<le> year d \<and> year d \<le> 9999 \<and> 1 \<le> month d \<and> month d \<le> 12
      \<and> 1 \<le> day d \<and> day d \<le> days_in_month (year d) (month d)
      \<and> hour d < 24 \<and> minute d < 60 \<and> second d < 60 \<and> microsecond d < 1000000)"


text \<open>
  \<^verbatim>\<open>isoformat()\<close>: \<^verbatim>\<open>YYYY-MM-DDTHH:MM:SS\<close>, followed by \<^verbatim>\<open>.ffffff\<close> when the
  microseconds are not zero.
\<close>

definition isoformat :: "datetime \<Rightarrow> string" where
  "isoformat d =
     pad 4 (year d) @ ''-'' @ pad 2 (month d) @ ''-'' @ pad 2 (day d) @ ''T''
     @ pad 2 (hour d) @ '':'' @ pad 2 (minute d) @ '':'' @ pad 2 (second d)
     @ (if microsecond d = 0 then [] else ''.'' @ pad 6 (microsecond d))"


text \<open>
  \<^verbatim>\<open>fromisoformat\<close> reads the texts \<^verbatim>\<open>isoformat\<close> writes:
  \<^verbatim>\<open>YYYY-MM-DD\<close>, alone or followed by one separator character and
  \<^verbatim>\<open>HH[:MM[:SS[.fff[fff]]]]\<close>, and checks the ranges of the fields; anything else is a
  \<^verbatim>\<open>ValueError\<close>. (A text with a UTC offset yields an aware value, and Python 3.11
  reads further ISO 8601 forms; neither is modelled, and nothing below rests on the
  rejection of a text other than the one of \<open>bad_date_body\<close>, which no version reads.)
\<close>

definition parse_isoformat_date :: "string \<Rightarrow> (nat \<times> nat \<times> nat) option" where
  "parse_isoformat_date s =
     (case (parse_field s 0 4, parse_field s 5 2, parse_field s 8 2) of
        (Some y, Some m, Some d) \<Rightarrow>
          if sep_at s 4 CHR ''-'' \<and> sep_at s 7 CHR ''-'' then Some (y, m, d) else None
      | _ \<Rightarrow> None)"

definition parse_isoformat_time :: "string \<Rightarrow> (nat \<times> nat \<times> nat \<times> nat) option" where
  "parse_isoformat_time t =
     (let n = length t;
          hh = parse_field t 0 2;
          mm = (if n < 5 then Some 0 else if sep_at t 2 CHR '':'' then parse_field t 3 2 else None);
          ss = (if n < 8 then Some 0 else if sep_at t 5 CHR '':'' then parse_field t 6 2 else None);
          ff = (if n < 12 then Some 0
                else if \<not> sep_at t 8 CHR ''.'' then None
                else if n = 12 then map_option (\<lambda>f. f * 1000) (parse_field t 9 3)
                else parse_field t 9 6)
      in if n \<in> {2, 5, 8, 12, 15} then
           (case (hh, mm, ss, ff) of
              (Some h, Some m, Some s, Some f) \<Rightarrow> Some (h, m, s, f)
            | _ \<Rightarrow> None)
         else None)"

definition make_datetime :: "nat \<times> nat \<times> nat \<Rightarrow> nat \<times> nat \<times> nat \<times> nat \<Rightarrow> exn + datetime" where
  "make_datetime ymd hmsf =
     (let dt = \<lparr>year = fst ymd, month = fst (snd ymd), day = snd (snd ymd),
                hour = fst hmsf, minute = fst (snd hmsf), second = fst (snd (snd hmsf)),
                microsecond = snd (snd (snd hmsf))\<rparr>
      in if valid_datetime dt then Inr dt else Inl ValueError)"

definition fromisoformat :: "string \<Rightarrow> exn + datetime" where
  "fromisoformat s =
     (if length s < 10 then Inl ValueError
      else
        (case parse_isoformat_date (take 10 s) of
           None \<Rightarrow> Inl ValueError
         | Some ymd \<Rightarrow>
            (case (if length s = 10 then Some (0, 0, 0, 0) else parse_isoformat_time (drop 11 s)) of
               None \<Rightarrow> Inl ValueError
             | Some hmsf \<Rightarrow> make_datetime ymd hmsf)))"


subsection \<open>serialize and deserialize\<close>

text \<open>
  What \<^verbatim>\<open>getattr(TypeOfPromo, name)\<close> can reach: the three members and, of the
  attributes every class object has, the docstring (line 24) and the class name. The
  runtime's class object has further attributes; they are not listed, and nothing below
  rests on their absence.
\<close>

definition TypeOfPromo_attributes :: "(string \<times> pyval) list" where
  "TypeOfPromo_attributes =
     map (\<lambda>(n, c). (n, PEnum c)) TypeOfPromo_members
     @ [(''__doc__'', PStr ''Enumeration of valid Promotions's type''),
        (''__name__'', PStr ''TypeOfPromo'')]"


text \<open>
  \<^verbatim>\<open>data[k]\<close>: the value under the key, \<^verbatim>\<open>KeyError\<close> when a dictionary lacks the key,
  \<^verbatim>\<open>TypeError\<close> when \<^verbatim>\<open>data\<close> is no dictionary (\<^verbatim>\<open>None\<close>, a list, a string and a
  number cannot be subscripted by a string).
\<close>

definition subscript :: "pyval \<Rightarrow> string \<Rightarrow> exn + pyval" where
  "subscript data k =
     (case data of
        PDict kvs \<Rightarrow> (case map_of kvs k of None \<Rightarrow> Inl (KeyError k) | Some v \<Rightarrow> Inr v)
      | _ \<Rightarrow> Inl TypeError)"


text \<open>
  \<^verbatim>\<open>getattr(TypeOfPromo, name)\<close>: \<^verbatim>\<open>TypeError\<close> when the name is no string,
  \<^verbatim>\<open>AttributeError\<close> when the class has no such attribute.
\<close>

definition getattr_TypeOfPromo :: "pyval \<Rightarrow> exn + pyval" where
  "getattr_TypeOfPromo name =
     (case name of
        PStr n \<Rightarrow>
          (case map_of TypeOfPromo_attributes n of
             None \<Rightarrow> Inl (AttributeError n)
           | Some v \<Rightarrow> Inr v)
      | _ \<Rightarrow> Inl TypeError)"


text \<open>Python's truth value of a value.\<close>

fun truthy :: "pyval \<Rightarrow> bool" where
  "truthy PNone = False"
| "truthy (PBool b) = b"
| "truthy (PInt i) = (i \<noteq> 0)"
| "truthy (PStr s) = (s \<noteq> [])"
| "truthy (PDatetime d) = True"
| "truthy (PEnum c) = True"
| "truthy (PList xs) = (xs \<noteq> [])"
| "truthy (PDict kvs) = (kvs \<noteq> [])"


text \<open>\<^verbatim>\<open>self.category.name\<close>.\<close>

definition name_of :: "TypeOfPromo \<Rightarrow> string" where
  "name_of c = (case c of Discount \<Rightarrow> ''Discount'' | BOGOF \<Rightarrow> ''BOGOF'' | Unknown \<Rightarrow> ''Unknown'')"


text \<open>\<^verbatim>\<open>serialize\<close> (lines 79-90), on a row of the schema's types.\<close>

definition serialize :: "Promotion \<Rightarrow> (string \<times> pyval) list" where
  "serialize self =
     [(''id'', case id_pk self of None \<Rightarrow> PNone | Some i \<Rightarrow> PInt i),
      (''product_name'', PStr (product_name self)),
      (''category'', PStr (name_of (category self))),
      (''product_id'', PInt (product_id self)),
      (''amount'', PInt (amount self)),
      (''description'', case description self of None \<Rightarrow> PNone | Some s \<Rightarrow> PStr s),
      (''from_date'', PStr (isoformat (from_date self))),
      (''to_date'', PStr (isoformat (to_date self)))]"


text \<open>
  The statements of the \<^verbatim>\<open>try\<close> block of \<^verbatim>\<open>deserialize\<close> (lines 100-115). Each takes
  the instance's attributes and returns them after the statement, with the exception it
  raised, if any. A date is parsed when it is a non-empty string, and assigned as it is
  otherwise.
\<close>

type_synonym step = "attrs \<Rightarrow> attrs \<times> exn option"

definition assign_item :: "string \<Rightarrow> pyval \<Rightarrow> step" where
  "assign_item k data self =
     (case subscript data k of
        Inl e \<Rightarrow> (self, Some e)
      | Inr v \<Rightarrow> (self(k \<mapsto> v), None))"

definition assign_category :: "pyval \<Rightarrow> step" where
  "assign_category data self =
     (case subscript data ''category'' of
        Inl e \<Rightarrow> (self, Some e)
      | Inr n \<Rightarrow>
          (case getattr_TypeOfPromo n of
             Inl e \<Rightarrow> (self, Some e)
           | Inr c \<Rightarrow> (self(''category'' \<mapsto> c), None)))"

definition assign_date :: "string \<Rightarrow> pyval \<Rightarrow> step" where
  "assign_date k data self =
     (case subscript data k of
        Inl e \<Rightarrow> (self, Some e)
      | Inr v \<Rightarrow>
          (case v of
             PStr s \<Rightarrow>
               if truthy v then
                 (case fromisoformat s of
                    Inl e \<Rightarrow> (self, Some e)
                  | Inr d \<Rightarrow> (self(k \<mapsto> PDatetime d), None))
               else (self(k \<mapsto> v), None)
           | _ \<Rightarrow> (self(k \<mapsto> v), None)))"


text \<open>The statements run in order, up to the first that raises.\<close>

fun run_steps :: "step list \<Rightarrow> step" where
  "run_steps [] self = (self, None)"
| "run_steps (f # fs) self =
     (case f self of
        (self', None) \<Rightarrow> run_steps fs self'
      | (self', Some e) \<Rightarrow> (self', Some e))"

definition try_body :: "pyval \<Rightarrow> step" where
  "try_body data =
     run_steps
       [assign_item ''product_name'' data,
        assign_category data,
        assign_item ''product_id'' data,
        assign_item ''amount'' data,
        assign_item ''description'' data,
        assign_date ''from_date'' data,
        assign_date ''to_date'' data]"


text \<open>
  The three \<^verbatim>\<open>except\<close> clauses (lines 119-128), in their order; an exception of another
  class passes through.
\<close>

definition except_clauses :: "exn \<Rightarrow> exn" where
  "except_clauses e =
     (case e of
        AttributeError a \<Rightarrow> DataValidationError (''Invalid attribute: '' @ a)
      | KeyError k \<Rightarrow> DataValidationError (''Invalid Promotion: missing '' @ k)
      | TypeError \<Rightarrow>
          DataValidationError ''Invalid Promotion: body of request contained bad or no data''
      | _ \<Rightarrow> e)"


text \<open>
  \<^verbatim>\<open>deserialize\<close> (lines 92-129): the attributes after the call, and the exception that
  leaves the method (\<open>None\<close> when it returns \<^verbatim>\<open>self\<close>).
\<close>

definition deserialize :: "attrs \<Rightarrow> pyval \<Rightarrow> attrs \<times> exn option" where
  "deserialize self data =
     (case try_body data self of
        (self', None) \<Rightarrow> (self', None)
      | (self', Some e) \<Rightarrow> (self', Some (except_clauses e)))"


subsection \<open>The specification's words\<close>

text \<open>
  The active window of the specification, at one instant: \<open>from_date \<le> now \<le> to_date\<close>.
\<close>

definition spec_active :: "datetime \<Rightarrow> Promotion \<Rightarrow> bool" where
  "spec_active now r = (dt_le (from_date r) now \<and> dt_le now (to_date r))"

text \<open>
  The benefit in the specification's words, as an exact quotient: \<open>amount / 100\<close> for a
  Discount, \<open>1 / amount\<close> for a BOGOF. The specification gives an Unknown promotion
  none; the \<open>0\<close> is never read where a statement excludes that category.
\<close>

definition spec_benefit :: "Promotion \<Rightarrow> rat" where
  "spec_benefit p =
     (case category p of
        Discount \<Rightarrow> of_int (amount p) / 100
      | BOGOF \<Rightarrow> 1 / of_int (amount p)
      | Unknown \<Rightarrow> 0)"

text \<open>
  The same benefit in Python's float arithmetic: the amount converted to a double, then
  one division rounded to the nearest double.
\<close>

definition float_benefit :: "Promotion \<Rightarrow> rat" where
  "float_benefit p =
     (case category p of
        Discount \<Rightarrow> nearest_double (nearest_double (of_int (amount p)) / 100)
      | BOGOF \<Rightarrow> nearest_double (1 / nearest_double (of_int (amount p)))
      | Unknown \<Rightarrow> 0)"

definition no_args :: find_args where
  "no_args = \<lparr>category_arg = None, product_name_arg = None, product_id_arg = None,
      from_date_arg = None, to_date_arg = None, available_arg = None\<rparr>"

subsection \<open>Sample data\<close>

definition jan1 :: datetime where
  "jan1 = \<lparr>year = 2024, month = 1, day = 1, hour = 0, minute = 0, second = 0, microsecond = 0\<rparr>"

definition feb1 :: datetime where
  "feb1 = \<lparr>year = 2024, month = 2, day = 1, hour = 0, minute = 0, second = 0, microsecond = 0\<rparr>"

definition mar1 :: datetime where
  "mar1 = \<lparr>year = 2024, month = 3, day = 1, hour = 12, minute = 30, second = 15, microsecond = 250000\<rparr>"

definition promo :: "int \<Rightarrow> TypeOfPromo \<Rightarrow> int \<Rightarrow> int \<Rightarrow> datetime \<Rightarrow> datetime \<Rightarrow> Promotion" where
  "promo i c pid a f t =
     \<lparr>id_pk = Some i, product_name = ''tea'', category = c, product_id = pid, amount = a,
      description = None, from_date = f, to_date = t\<rparr>"

text \<open>Two promotions of product 7 that are active on 1 February, and one that has ended.\<close>

definition discount30 :: Promotion where
  "discount30 = promo 1 Discount 7 30 jan1 mar1"

definition bogof4 :: Promotion where
  "bogof4 = promo 2 BOGOF 7 4 jan1 mar1"

definition unknown5 :: Promotion where
  "unknown5 = promo 3 Unknown 7 5 jan1 mar1"

definition ended :: Promotion where
  "ended = promo 4 Discount 7 60 jan1 jan1"

text \<open>
  Active promotions of product 7 on which the selector raises, and two BOGOF promotions
  whose amounts, \<open>2 ^ 53 + 1\<close> and \<open>2 ^ 53\<close>, convert to the same double.
\<close>

definition bogof0 :: Promotion where
  "bogof0 = promo 5 BOGOF 7 0 jan1 mar1"

definition discount_huge :: Promotion where
  "discount_huge = promo 6 Discount 7 (2 ^ 1024) jan1 mar1"

definition bogof_odd :: Promotion where
  "bogof_odd = promo 7 BOGOF 7 9007199254740993 jan1 mar1"

definition bogof_even :: Promotion where
  "bogof_even = promo 8 BOGOF 7 9007199254740992 jan1 mar1"

text \<open>A BOGOF promotion of another product, and the arguments of a combined query.\<close>

definition bogof_other :: Promotion where
  "bogof_other = promo 9 BOGOF 8 2 jan1 mar1"

definition sample_args :: find_args where
  "sample_args =
     \<lparr>category_arg = Some (Name ''TypeOfPromo.BOGOF''), product_name_arg = Some ''tea'',
      product_id_arg = Some 7, from_date_arg = Some jan1, to_date_arg = Some mar1,
      available_arg = Some 1\<rparr>"

definition bad_date_body :: pyval where
  "bad_date_body =
     PDict [(''product_name'', PStr ''tea''), (''category'', PStr ''Discount''),
            (''product_id'', PInt 7), (''amount'', PInt 30), (''description'', PNone),
            (''from_date'', PStr ''not-a-date''),
            (''to_date'', PStr ''2024-02-01T00:00:00'')]"

definition empty_store :: store where
  "empty_store = \<lparr>rows = [], next_id = 1\<rparr>"

section \<open>Validation on create\<close>

text \<open>
  C2. \<open>create\<close> raises the validation error exactly when \<open>amount \<le> 0\<close> or the category
  is Discount with \<open>amount > 100\<close>; otherwise it raises nothing and the row, under the
  store's next primary key, is appended to the table.
\<close>

theorem create_validation:
  "((\<exists>msg. raised (create p st) = Some (DataValidationError msg))
      \<longleftrightarrow> (amount p \<le> 0 \<or> (category p = Discount \<and> amount p > 100)))
   \<and> (raised (create p st) \<noteq> None
      \<longleftrightarrow> (amount p \<le> 0 \<or> (category p = Discount \<and> amount p > 100)))
   \<and> (\<not> (amount p \<le> 0 \<or> (category p = Discount \<and> amount p > 100)) \<longrightarrow>
        raised (create p st) = None
        \<and> rows (db (create p st)) = rows st @ [p\<lparr>id_pk := Some (next_id st)\<rparr>]
        \<and> entity (create p st) = p\<lparr>id_pk := Some (next_id st)\<rparr>)"
  by (simp add: create_def Let_def)

theorem create_validation_witness:
  "raised (create (promo 0 Discount 7 30 jan1 feb1) empty_store) = None
   \<and> rows (db (create (promo 0 Discount 7 30 jan1 feb1) empty_store))
       = [promo 1 Discount 7 30 jan1 feb1]
   \<and> raised (create (promo 0 Discount 7 101 jan1 feb1) empty_store)
       = Some (DataValidationError ''Discount cannot exceed 100%'')
   \<and> raised (create (promo 0 BOGOF 7 101 jan1 feb1) empty_store) = None
   \<and> raised (create (promo 0 BOGOF 7 0 jan1 feb1) empty_store)
       = Some (DataValidationError ''amount must be grater than 0'')"
  using create_validation [of "promo 0 Discount 7 30 jan1 feb1" empty_store]
  by (simp add: create_def promo_def empty_store_def Let_def)

section \<open>update does not validate\<close>



section \<open>A failed create leaves the store alone, not the entity\<close>

text \<open>
  C10. When \<open>create\<close> raises, the store is exactly what it was (no row added, no primary
  key used up), since both checks come before the insert; the entity's id has been set
  to \<open>None\<close> all the same, the assignment being the first statement of the method.
\<close>

theorem create_failure_atomic:
  "raised (create p st) \<noteq> None \<Longrightarrow>
     db (create p st) = st \<and> id_pk (entity (create p st)) = None
     \<and> entity (create p st) = p\<lparr>id_pk := None\<rparr>"
  by (simp add: create_def Let_def split: if_splits)

theorem create_failure_atomic_witness:
  "raised (create (promo 5 Discount 7 101 jan1 feb1)
       \<lparr>rows = [promo 1 BOGOF 7 4 jan1 feb1], next_id = 2\<rparr>) \<noteq> None
   \<and> db (create (promo 5 Discount 7 101 jan1 feb1)
       \<lparr>rows = [promo 1 BOGOF 7 4 jan1 feb1], next_id = 2\<rparr>)
      = \<lparr>rows = [promo 1 BOGOF 7 4 jan1 feb1], next_id = 2\<rparr>
   \<and> id_pk (entity (create (promo 5 Discount 7 101 jan1 feb1)
       \<lparr>rows = [promo 1 BOGOF 7 4 jan1 feb1], next_id = 2\<rparr>)) = None"
proof -
  have h: "raised (create (promo 5 Discount 7 101 jan1 feb1)
       \<lparr>rows = [promo 1 BOGOF 7 4 jan1 feb1], next_id = 2\<rparr>) \<noteq> None"
    by (simp add: create_def promo_def Let_def)
  show ?thesis
    using h create_failure_atomic [OF h] by simp
qed

section \<open>Order of timestamps\<close>

lemma dt_gt_iff: "dt_gt a b = (\<not> dt_le a b)"
  by (simp add: dt_gt_def dt_le_def not_le)

lemma dt_lt_iff: "dt_lt a b = (\<not> dt_ge a b)"
  by (simp add: dt_lt_def dt_ge_def not_le)

lemma dt_ge_iff: "dt_ge a b = dt_le b a"
  by (simp add: dt_ge_def dt_le_def)

lemma active_filters:
  "filter (\<lambda>r. dt_ge (to_date r) now) (filter (\<lambda>r. dt_le (from_date r) now) xs)
     = filter (spec_active now) xs"
  by (auto simp: spec_active_def dt_ge_iff intro: filter_cong)

section \<open>Availability\<close>

text \<open>
  C8. With one instant \<open>now\<close> for every reading of the clock, the two availability
  queries split the table: each row is returned by exactly one of them (their row sets
  cover the table and are disjoint, and each query returns the rows, in table order, that
  the other does not), \<open>available=True\<close> being the rows with
  \<open>from_date \<le> now \<le> to_date\<close>.
\<close>

theorem availability_complement:
  "set (find_by_availability True now now tbl) \<union> set (find_by_availability False now now tbl)
      = set tbl
   \<and> set (find_by_availability True now now tbl) \<inter> set (find_by_availability False now now tbl)
      = {}
   \<and> find_by_availability False now now tbl
       = filter (\<lambda>r. r \<notin> set (find_by_availability True now now tbl)) tbl
   \<and> find_by_availability True now now tbl
       = filter (\<lambda>r. r \<notin> set (find_by_availability False now now tbl)) tbl
   \<and> find_by_availability True now now tbl = filter (spec_active now) tbl
   \<and> find_by_availability False now now tbl = filter (\<lambda>r. \<not> spec_active now r) tbl"
proof -
  have T: "find_by_availability True now now tbl = filter (spec_active now) tbl"
    by (simp only: find_by_availability_def if_True active_filters)
  have F: "find_by_availability False now now tbl = filter (\<lambda>r. \<not> spec_active now r) tbl"
    by (simp add: find_by_availability_def spec_active_def dt_gt_iff dt_lt_iff dt_ge_iff)
  have c1: "filter (\<lambda>r. \<not> spec_active now r) tbl
      = filter (\<lambda>r. r \<notin> set (filter (spec_active now) tbl)) tbl"
    by (rule filter_cong) auto
  have c2: "filter (spec_active now) tbl
      = filter (\<lambda>r. r \<notin> set (filter (\<lambda>r. \<not> spec_active now r) tbl)) tbl"
    by (rule filter_cong) auto
  show ?thesis
    unfolding T F using c1 c2 by auto
qed

section \<open>The combined finder\<close>

lemma filter_option:
  "(case c of None \<Rightarrow> xs | Some v \<Rightarrow> filter (\<lambda>r. f r = v) xs)
     = filter (\<lambda>r. case c of None \<Rightarrow> True | Some v \<Rightarrow> f r = v) xs"
  by (cases c) simp_all

lemma filter_available:
  "(case av of
      None \<Rightarrow> xs
    | Some a \<Rightarrow>
        if a > 0 then filter (\<lambda>r. dt_ge (to_date r) n2) (filter (\<lambda>r. dt_le (from_date r) n1) xs)
        else filter (\<lambda>r. dt_gt (from_date r) n1 \<or> dt_gt n2 (to_date r)) xs)
   = filter (\<lambda>r. case av of
                   None \<Rightarrow> True
                 | Some a \<Rightarrow>
                     if a > 0 then dt_le (from_date r) n1 \<and> dt_ge (to_date r) n2
                     else dt_gt (from_date r) n1 \<or> dt_gt n2 (to_date r)) xs"
  by (cases av) (auto intro: filter_cong)

text \<open>The finder once the category of the first filter is known.\<close>

lemma multi_attributes_filter:
  assumes "category_criterion (category_arg args) = Inr copt"
  shows "find_by_multi_attributes args n1 n2 tbl =
     Inr (filter (\<lambda>r.
           (case copt of None \<Rightarrow> True | Some c \<Rightarrow> category r = c)
         \<and> (case product_name_arg args of None \<Rightarrow> True | Some v \<Rightarrow> product_name r = v)
         \<and> (case product_id_arg args of None \<Rightarrow> True | Some v \<Rightarrow> product_id r = v)
         \<and> (case from_date_arg args of None \<Rightarrow> True | Some v \<Rightarrow> from_date r = v)
         \<and> (case to_date_arg args of None \<Rightarrow> True | Some v \<Rightarrow> to_date r = v)
         \<and> (case available_arg args of
              None \<Rightarrow> True
            | Some a \<Rightarrow>
                if a > 0 then dt_le (from_date r) n1 \<and> dt_ge (to_date r) n2
                else dt_gt (from_date r) n1 \<or> dt_gt n2 (to_date r))) tbl)"
proof -
  have "find_by_multi_attributes args n1 n2 tbl =
     Inr (filter (\<lambda>r. case available_arg args of
                        None \<Rightarrow> True
                      | Some a \<Rightarrow>
                          if a > 0 then dt_le (from_date r) n1 \<and> dt_ge (to_date r) n2
                          else dt_gt (from_date r) n1 \<or> dt_gt n2 (to_date r))
       (filter (\<lambda>r. case to_date_arg args of None \<Rightarrow> True | Some v \<Rightarrow> to_date r = v)
         (filter (\<lambda>r. case from_date_arg args of None \<Rightarrow> True | Some v \<Rightarrow> from_date r = v)
           (filter (\<lambda>r. case product_id_arg args of None \<Rightarrow> True | Some v \<Rightarrow> product_id r = v)
             (filter (\<lambda>r. case product_name_arg args of
                            None \<Rightarrow> True
                          | Some v \<Rightarrow> product_name r = v)
               (filter (\<lambda>r. case copt of None \<Rightarrow> True | Some c \<Rightarrow> category r = c) tbl))))))"
    unfolding find_by_multi_attributes_def Let_def assms sum.case filter_available
      filter_option ..
  also have "\<dots> = Inr (filter (\<lambda>r.
           (case copt of None \<Rightarrow> True | Some c \<Rightarrow> category r = c)
         \<and> (case product_name_arg args of None \<Rightarrow> True | Some v \<Rightarrow> product_name r = v)
         \<and> (case product_id_arg args of None \<Rightarrow> True | Some v \<Rightarrow> product_id r = v)
         \<and> (case from_date_arg args of None \<Rightarrow> True | Some v \<Rightarrow> from_date r = v)
         \<and> (case to_date_arg args of None \<Rightarrow> True | Some v \<Rightarrow> to_date r = v)
         \<and> (case available_arg args of
              None \<Rightarrow> True
            | Some a \<Rightarrow>
                if a > 0 then dt_le (from_date r) n1 \<and> dt_ge (to_date r) n2
                else dt_gt (from_date r) n1 \<or> dt_gt n2 (to_date r))) tbl)"
    unfolding filter_filter sum.inject by (rule filter_cong) auto
  finally show ?thesis .
qed

text \<open>
  A category string is read by its last dot-separated segment, which names the member.
\<close>

lemma last_segment_qualified:
  assumes "CHR ''.'' \<notin> set n" and "q = [] \<or> last q = CHR ''.''"
  shows "last_segment (q @ n) = n"
proof -
  have "takeWhile (\<lambda>c. c \<noteq> CHR ''.'') (rev n @ rev q) = rev n"
  proof (cases "q = []")
    case True
    then show ?thesis using assms(1) by (auto simp: takeWhile_eq_all_conv)
  next
    case False
    then have "last q = CHR ''.''" using assms(2) by simp
    then have "hd (rev q) = CHR ''.''" using False by (simp add: hd_rev)
    moreover have "rev q \<noteq> []" using False by simp
    ultimately obtain t where t: "rev q = CHR ''.'' # t" by (cases "rev q") auto
    have "\<And>x. x \<in> set (rev n) \<Longrightarrow> x \<noteq> CHR ''.''" using assms(1) by auto
    then have "takeWhile (\<lambda>c. c \<noteq> CHR ''.'') (rev n @ CHR ''.'' # t)
        = rev n @ takeWhile (\<lambda>c. c \<noteq> CHR ''.'') (CHR ''.'' # t)"
      by (rule takeWhile_append2)
    then show ?thesis by (simp add: t)
  qed
  then show ?thesis by (simp add: last_segment_def)
qed

lemma category_criterion_name:
  assumes "(n, c) \<in> {(''Discount'', Discount), (''BOGOF'', BOGOF), (''Unknown'', Unknown)}"
    and "q = [] \<or> last q = CHR ''.''"
  shows "category_criterion (Some (Name (q @ n))) = Inr (Some c)"
proof -
  have "CHR ''.'' \<notin> set n" using assms(1) by auto
  then have "last_segment (q @ n) = n" using assms(2) by (rule last_segment_qualified)
  moreover have "member_by_name n = Inr c"
    using assms(1) by (auto simp: member_by_name_def TypeOfPromo_members_def)
  ultimately show ?thesis by (simp add: category_criterion_def)
qed

lemma category_criterion_unknown_name:
  assumes "last_segment s \<notin> {''Discount'', ''BOGOF'', ''Unknown''}"
  shows "find_by_multi_attributes (args\<lparr>category_arg := Some (Name s)\<rparr>) n1 n2 tbl
     = Inl (KeyError (last_segment s))"
  using assms
  by (simp add: find_by_multi_attributes_def category_criterion_def member_by_name_def
      TypeOfPromo_members_def)

text \<open>
  C5. The combined finder returns the rows of the table, in table order, that satisfy
  every supplied criterion at once. The category criterion is absent, or a member \<open>c\<close>,
  or a string that names the member \<open>c\<close> (its name, alone or after a qualifying prefix
  that ends with a dot), and then the rows are those of category \<open>c\<close>; the product name,
  the product id, \<open>from_date\<close> and \<open>to_date\<close> are plain equalities with the column; the
  flag selects its availability predicate. A criterion that is absent or \<open>None\<close> holds of
  every row, so without criteria the whole table is returned.
\<close>

theorem multi_attributes_conjunction:
  "((category_arg args = None \<and> copt = None
      \<or> category_arg args = Some (Member c) \<and> copt = Some c
      \<or> (\<exists>q n. category_arg args = Some (Name (q @ n))
            \<and> (n, c) \<in> {(''Discount'', Discount), (''BOGOF'', BOGOF), (''Unknown'', Unknown)}
            \<and> (q = [] \<or> last q = CHR ''.'') \<and> copt = Some c))
     \<longrightarrow>
     find_by_multi_attributes args n1 n2 tbl =
       Inr (filter (\<lambda>r.
           (case copt of None \<Rightarrow> True | Some c' \<Rightarrow> category r = c')
         \<and> (case product_name_arg args of None \<Rightarrow> True | Some v \<Rightarrow> product_name r = v)
         \<and> (case product_id_arg args of None \<Rightarrow> True | Some v \<Rightarrow> product_id r = v)
         \<and> (case from_date_arg args of None \<Rightarrow> True | Some v \<Rightarrow> from_date r = v)
         \<and> (case to_date_arg args of None \<Rightarrow> True | Some v \<Rightarrow> to_date r = v)
         \<and> (case available_arg args of
              None \<Rightarrow> True
            | Some a \<Rightarrow>
                if a > 0 then dt_le (from_date r) n1 \<and> dt_ge (to_date r) n2
                else dt_gt (from_date r) n1 \<or> dt_gt n2 (to_date r))) tbl))
   \<and> find_by_multi_attributes
        \<lparr>category_arg = None, product_name_arg = None, product_id_arg = None,
         from_date_arg = None, to_date_arg = None, available_arg = None\<rparr> n1 n2 tbl
      = Inr tbl"
proof (intro conjI impI)
  assume "category_arg args = None \<and> copt = None
      \<or> category_arg args = Some (Member c) \<and> copt = Some c
      \<or> (\<exists>q n. category_arg args = Some (Name (q @ n))
            \<and> (n, c) \<in> {(''Discount'', Discount), (''BOGOF'', BOGOF), (''Unknown'', Unknown)}
            \<and> (q = [] \<or> last q = CHR ''.'') \<and> copt = Some c)"
  then have H: "category_arg args = None \<and> copt = None
      \<or> category_arg args = Some (Member c) \<and> copt = Some c
      \<or> (\<exists>q n. category_arg args = Some (Name (q @ n))
            \<and> (n, c) \<in> {(''Discount'', Discount), (''BOGOF'', BOGOF), (''Unknown'', Unknown)}
            \<and> (q = [] \<or> last q = CHR ''.'') \<and> copt = Some c)" .
  have "category_criterion (category_arg args) = Inr copt"
  proof (cases "category_arg args")
    case None
    then have "copt = None" using H by auto
    then show ?thesis using None by (simp add: category_criterion_def)
  next
    case (Some cv)
    show ?thesis
    proof (cases cv)
      case (Member c0)
      then have "c0 = c \<and> copt = Some c" using H Some by auto
      then show ?thesis using Some Member by (simp add: category_criterion_def)
    next
      case (Name s)
      then obtain q n where "s = q @ n"
        "(n, c) \<in> {(''Discount'', Discount), (''BOGOF'', BOGOF), (''Unknown'', Unknown)}"
        "q = [] \<or> last q = CHR ''.''" "copt = Some c"
        using H Some by auto
      then show ?thesis using Some Name category_criterion_name [of n c q] by simp
    qed
  qed
  then show "find_by_multi_attributes args n1 n2 tbl =
       Inr (filter (\<lambda>r.
           (case copt of None \<Rightarrow> True | Some c' \<Rightarrow> category r = c')
         \<and> (case product_name_arg args of None \<Rightarrow> True | Some v \<Rightarrow> product_name r = v)
         \<and> (case product_id_arg args of None \<Rightarrow> True | Some v \<Rightarrow> product_id r = v)
         \<and> (case from_date_arg args of None \<Rightarrow> True | Some v \<Rightarrow> from_date r = v)
         \<and> (case to_date_arg args of None \<Rightarrow> True | Some v \<Rightarrow> to_date r = v)
         \<and> (case available_arg args of
              None \<Rightarrow> True
            | Some a \<Rightarrow>
                if a > 0 then dt_le (from_date r) n1 \<and> dt_ge (to_date r) n2
                else dt_gt (from_date r) n1 \<or> dt_gt n2 (to_date r))) tbl)"
    by (rule multi_attributes_filter)
next
  show "find_by_multi_attributes
        \<lparr>category_arg = None, product_name_arg = None, product_id_arg = None,
         from_date_arg = None, to_date_arg = None, available_arg = None\<rparr> n1 n2 tbl
      = Inr tbl"
    by (simp add: find_by_multi_attributes_def category_criterion_def)
qed

theorem multi_attributes_conjunction_witness:
  "find_by_multi_attributes sample_args feb1 feb1
      [discount30, bogof4, ended, bogof_other, unknown5] = Inr [bogof4]
   \<and> find_by_multi_attributes (no_args\<lparr>category_arg := Some (Member Discount)\<rparr>) feb1 feb1
      [discount30, bogof4, ended, bogof_other, unknown5] = Inr [discount30, ended]
   \<and> find_by_multi_attributes (no_args\<lparr>category_arg := Some (Name ''Unknown'')\<rparr>) feb1 feb1
      [discount30, bogof4, ended, bogof_other, unknown5] = Inr [unknown5]"
proof -
  have h1: "category_arg sample_args = None \<and> Some BOGOF = None
      \<or> category_arg sample_args = Some (Member BOGOF) \<and> Some BOGOF = Some BOGOF
      \<or> (\<exists>q n. category_arg sample_args = Some (Name (q @ n))
            \<and> (n, BOGOF) \<in> {(''Discount'', Discount), (''BOGOF'', BOGOF), (''Unknown'', Unknown)}
            \<and> (q = [] \<or> last q = CHR ''.'') \<and> Some BOGOF = Some BOGOF)"
    by (rule disjI2, rule disjI2, rule exI [of _ "''TypeOfPromo.''"], rule exI [of _ "''BOGOF''"])
       (simp add: sample_args_def)
  have h2: "category_arg (no_args\<lparr>category_arg := Some (Member Discount)\<rparr>) = None
        \<and> Some Discount = None
      \<or> category_arg (no_args\<lparr>category_arg := Some (Member Discount)\<rparr>) = Some (Member Discount)
        \<and> Some Discount = Some Discount
      \<or> (\<exists>q n. category_arg (no_args\<lparr>category_arg := Some (Member Discount)\<rparr>)
              = Some (Name (q @ n))
            \<and> (n, Discount) \<in> {(''Discount'', Discount), (''BOGOF'', BOGOF), (''Unknown'', Unknown)}
            \<and> (q = [] \<or> last q = CHR ''.'') \<and> Some Discount = Some Discount)"
    by simp
  have h3: "category_arg (no_args\<lparr>category_arg := Some (Name ''Unknown'')\<rparr>) = None
        \<and> Some Unknown = None
      \<or> category_arg (no_args\<lparr>category_arg := Some (Name ''Unknown'')\<rparr>) = Some (Member Unknown)
        \<and> Some Unknown = Some Unknown
      \<or> (\<exists>q n. category_arg (no_args\<lparr>category_arg := Some (Name ''Unknown'')\<rparr>)
              = Some (Name (q @ n))
            \<and> (n, Unknown) \<in> {(''Discount'', Discount), (''BOGOF'', BOGOF), (''Unknown'', Unknown)}
            \<and> (q = [] \<or> last q = CHR ''.'') \<and> Some Unknown = Some Unknown)"
    by (rule disjI2, rule disjI2, rule exI [of _ "[]"], rule exI [of _ "''Unknown''"]) simp
  note r1 = multi_attributes_conjunction [THEN conjunct1, THEN mp, OF h1]
  note r2 = multi_attributes_conjunction [THEN conjunct1, THEN mp, OF h2]
  note r3 = multi_attributes_conjunction [THEN conjunct1, THEN mp, OF h3]
  have 1: "find_by_multi_attributes sample_args feb1 feb1
      [discount30, bogof4, ended, bogof_other, unknown5] = Inr [bogof4]"
    unfolding r1
    by (simp add: sample_args_def discount30_def bogof4_def ended_def
          bogof_other_def unknown5_def promo_def jan1_def feb1_def mar1_def
          dt_le_def dt_ge_def dt_key_def)
  have 2: "find_by_multi_attributes (no_args\<lparr>category_arg := Some (Member Discount)\<rparr>) feb1 feb1
      [discount30, bogof4, ended, bogof_other, unknown5] = Inr [discount30, ended]"
    unfolding r2
    by (simp add: no_args_def discount30_def bogof4_def ended_def
          bogof_other_def unknown5_def promo_def)
  have 3: "find_by_multi_attributes (no_args\<lparr>category_arg := Some (Name ''Unknown'')\<rparr>) feb1 feb1
      [discount30, bogof4, ended, bogof_other, unknown5] = Inr [unknown5]"
    unfolding r3
    by (simp add: no_args_def discount30_def bogof4_def ended_def
          bogof_other_def unknown5_def promo_def)
  show ?thesis using 1 2 3 by simp
qed

text \<open>
  C6, as the specification states it, fails twice. The flag \<open>-1\<close> is a non-zero integer,
  and the finder returns the promotions that are not available. And the flag replaces
  no date equality: \<open>discount30\<close> is available on 1 February and is returned for the flag
  \<open>1\<close> alone, but not for the flag together with \<open>from_date = 1 February\<close>, which is not
  its first day.
\<close>

theorem available_flag_counterexample:
  "(- 1 :: int) \<noteq> 0
   \<and> find_by_multi_attributes (no_args\<lparr>available_arg := Some (- 1)\<rparr>) feb1 feb1
        [discount30, ended] = Inr [ended]
   \<and> find_by_availability True feb1 feb1 [discount30, ended] = [discount30]
   \<and> find_by_multi_attributes (no_args\<lparr>available_arg := Some 1\<rparr>) feb1 feb1
        [discount30] = Inr [discount30]
   \<and> find_by_multi_attributes (no_args\<lparr>from_date_arg := Some feb1, available_arg := Some 1\<rparr>)
        feb1 feb1 [discount30] = Inr []"
  by (simp add: find_by_multi_attributes_def find_by_availability_def no_args_def
      category_criterion_def discount30_def ended_def promo_def jan1_def feb1_def mar1_def
      dt_le_def dt_ge_def dt_gt_def dt_key_def)

text \<open>
  C6, amended. When the \<open>available\<close> criterion is present, the flag counts as true
  exactly when it is a positive integer (zero and the negative integers count as false).
  At one instant \<open>now\<close>, the finder then returns what it returns without the flag,
  restricted to the rows with \<open>from_date \<le> now \<le> to_date\<close> when the flag is true, and
  to the other rows when it is false; the predicate comes on top of the other criteria
  of the call, the date equalities among them.
\<close>

theorem available_flag:
  "available_arg args = Some a \<Longrightarrow>
     find_by_multi_attributes args now now tbl =
       (case find_by_multi_attributes (args\<lparr>available_arg := None\<rparr>) now now tbl of
          Inl e \<Rightarrow> Inl e
        | Inr rs \<Rightarrow>
            Inr (filter (\<lambda>r. if a > 0 then spec_active now r else \<not> spec_active now r) rs))"
proof -
  assume a: "available_arg args = Some a"
  have f2: "\<And>xs. filter (\<lambda>r. dt_gt (from_date r) now \<or> dt_gt now (to_date r)) xs
      = filter (\<lambda>r. \<not> spec_active now r) xs"
    by (auto simp: spec_active_def dt_gt_iff intro: filter_cong)
  show ?thesis
    by (cases "category_criterion (category_arg args)")
       (simp_all add: find_by_multi_attributes_def Let_def a active_filters f2
          del: filter_filter)
qed

theorem available_flag_witness:
  "find_by_multi_attributes (no_args\<lparr>product_id_arg := Some 7, available_arg := Some 2\<rparr>)
      feb1 feb1 [discount30, ended] = Inr [discount30]"
proof -
  have h: "available_arg (no_args\<lparr>product_id_arg := Some 7, available_arg := Some 2\<rparr>) = Some 2"
    by simp
  show ?thesis
    using available_flag [OF h, of feb1 "[discount30, ended]"]
    by (simp add: find_by_multi_attributes_def no_args_def category_criterion_def
        spec_active_def discount30_def ended_def promo_def jan1_def feb1_def mar1_def
        dt_le_def dt_key_def)
qed

section \<open>Floats\<close>

lemma bit_length_pos: "0 < n \<Longrightarrow> 0 < bit_length n"
  by (subst bit_length.simps) simp

lemma bit_length_lower: "0 < n \<Longrightarrow> 2 ^ (bit_length n - 1) \<le> n"
proof (induction n rule: bit_length.induct)
  case (1 n)
  show ?case
  proof (cases "n div 2 = 0")
    case True
    then have "bit_length (n div 2) = 0" by (subst bit_length.simps) simp
    then have "bit_length n = 1" using "1.prems" by (subst bit_length.simps) simp
    then show ?thesis using "1.prems" by simp
  next
    case False
    then have h: "0 < n div 2" using "1.prems" by simp
    then have ih: "2 ^ (bit_length (n div 2) - 1) \<le> n div 2"
      using "1.IH" "1.prems" by simp
    have bl: "bit_length n = Suc (bit_length (n div 2))"
      using "1.prems" by (subst bit_length.simps) simp
    obtain k where k: "bit_length (n div 2) = Suc k"
      using bit_length_pos [OF h] by (cases "bit_length (n div 2)") auto
    have "(2::int) ^ (bit_length n - 1) = 2 * 2 ^ k" by (simp add: bl k)
    also have "\<dots> \<le> 2 * (n div 2)" using ih k by simp
    also have "\<dots> \<le> n" by simp
    finally show ?thesis .
  qed
qed

lemma round_half_even_ge: "\<lfloor>r\<rfloor> \<le> round_half_even r"
  by (simp add: round_half_even_def Let_def)

lemma round_half_even_le: "round_half_even r \<le> \<lceil>r\<rceil>"
proof -
  have "\<lfloor>r\<rfloor> + 1 \<le> \<lceil>r\<rceil>" if "0 < r - of_int \<lfloor>r\<rfloor>"
    using that by (metis add.commute ceiling_altdef diff_gt_0_iff_gt less_irrefl order_refl)
  moreover have "\<lfloor>r\<rfloor> \<le> \<lceil>r\<rceil>" by (simp add: floor_le_ceiling)
  ultimately show ?thesis
    by (auto simp: round_half_even_def Let_def)
qed

lemma round_half_even_nonzero: "1 \<le> \<bar>r\<bar> \<Longrightarrow> round_half_even r \<noteq> 0"
proof (cases "0 \<le> r")
  case True
  assume "1 \<le> \<bar>r\<bar>"
  then have "1 \<le> r" using True by simp
  then have "1 \<le> \<lfloor>r\<rfloor>" by simp
  then show ?thesis using round_half_even_ge [of r] by linarith
next
  case False
  assume "1 \<le> \<bar>r\<bar>"
  then have "r \<le> - 1" using False by simp
  then have "\<lceil>r\<rceil> \<le> - 1" by (simp add: ceiling_le_iff)
  then show ?thesis using round_half_even_le [of r] by linarith
qed

lemma nearest_double_of_int_nonzero:
  assumes "a \<noteq> 0"
  shows "nearest_double (of_int a) \<noteq> 0"
proof -
  let ?x = "of_int a :: rat"
  have a1: "1 \<le> \<bar>a\<bar>" using assms by simp
  then have x1: "1 \<le> \<bar>?x\<bar>" by (metis of_int_1_le_iff of_int_abs)
  have fl: "\<lfloor>\<bar>?x\<bar>\<rfloor> = \<bar>a\<bar>" by (metis floor_of_int of_int_abs)
  define e where "e = int (bit_length \<bar>a\<bar>) - 1"
  have e0: "0 \<le> e" using bit_length_pos [of "\<bar>a\<bar>"] a1 by (simp add: e_def)
  have fle: "floor_log2 \<bar>?x\<bar> = e" using x1 by (simp add: floor_log2_def fl e_def)
  have m: "max (floor_log2 \<bar>?x\<bar>) (- 1022) = e" using e0 fle by simp
  have lower: "(2::rat) powi e \<le> \<bar>?x\<bar>"
  proof -
    have "(2::int) ^ (bit_length \<bar>a\<bar> - 1) \<le> \<bar>a\<bar>" using bit_length_lower [of "\<bar>a\<bar>"] a1 by simp
    then have "(of_int ((2::int) ^ (bit_length \<bar>a\<bar> - 1)) :: rat) \<le> of_int \<bar>a\<bar>"
      by (simp only: of_int_le_iff)
    moreover have "nat e = bit_length \<bar>a\<bar> - 1" by (simp add: e_def)
    ultimately show ?thesis using e0 by (simp add: power_int_def)
  qed
  define ulp where "ulp = (2::rat) powi (e - 52)"
  have up: "0 < ulp" by (simp add: ulp_def)
  have "ulp \<le> 2 powi e" unfolding ulp_def by (rule power_int_increasing) simp_all
  then have "ulp \<le> \<bar>?x\<bar>" using lower by simp
  then have "1 \<le> \<bar>?x\<bar> / ulp" using up by (simp add: le_divide_eq)
  then have "1 \<le> \<bar>?x / ulp\<bar>" using up by simp
  then have "round_half_even (?x / ulp) \<noteq> 0" by (rule round_half_even_nonzero)
  then show ?thesis
    using assms up by (simp add: nearest_double_def m ulp_def Let_def)
qed


lemma float_of_int_raises: "float_of_int a = Inl e \<Longrightarrow> e = OverflowError"
  by (auto simp: float_of_int_def split: if_splits)

text \<open>The floats of the sample amounts.\<close>

lemma float_30: "nearest_double 30 = 30"
  by code_simp

lemma float_4: "nearest_double 4 = 4"
  by code_simp

lemma float_30_100: "float_div 30 100 = 5404319552844595 / 18014398509481984"
  by code_simp

lemma float_1_4: "float_div 1 4 = 1 / 4"
  by code_simp

lemma float_odd: "nearest_double 9007199254740993 = 9007199254740992"
  by code_simp

lemma float_even: "nearest_double 9007199254740992 = 9007199254740992"
  by code_simp

lemma float_1_even: "float_div 1 9007199254740992 = 1 / 9007199254740992"
  by code_simp

section \<open>The best promotion of a product\<close>

lemma promotion_list_now:
  "promotion_list pid now now tbl = filter (\<lambda>r. product_id r = pid \<and> spec_active now r) tbl"
  by (auto simp: promotion_list_def spec_active_def dt_ge_iff intro: filter_cong)

text \<open>
  Where the amount converts to a float, a Discount, and a BOGOF of a non-zero amount,
  are assigned the float benefit, whatever \<open>off\<close> held before. An Unknown promotion
  leaves \<open>off\<close> as it is.
\<close>

lemma assign_off_float:
  assumes "category p \<noteq> Unknown" and "\<not> (category p = BOGOF \<and> amount p = 0)"
    and "\<bar>amount p\<bar> < 2 ^ 1024 - 2 ^ 970"
  shows "assign_off p off = Inr (Some (float_benefit p))"
proof -
  have c: "float_of_int (amount p) = Inr (nearest_double (of_int (amount p)))"
    using assms(3) by (simp add: float_of_int_def)
  show ?thesis
    using assms(1,2) nearest_double_of_int_nonzero [of "amount p"]
    by (cases "category p") (auto simp: assign_off_def c float_benefit_def float_div_def)
qed

lemma assign_off_Unknown: "category p = Unknown \<Longrightarrow> assign_off p off = Inr off"
  by (simp add: assign_off_def)

lemma float_benefit_Unknown: "category p = Unknown \<Longrightarrow> float_benefit p = 0"
  by (simp add: float_benefit_def)

text \<open>
  The loop, from any state in which the running maximum is not negative and \<open>off\<close>, once
  assigned, does not exceed it, over promotions on which no assignment raises, the
  first of them not Unknown while \<open>off\<close> is unassigned: either no promotion of the list
  beats the running maximum and the best so far is returned, or the first promotion of
  the greatest benefit is.
\<close>

lemma best_loop_spec:
  assumes "0 \<le> m" and "\<forall>v. off = Some v \<longrightarrow> v \<le> m"
    and "off = None \<longrightarrow> (case ps of [] \<Rightarrow> True | p # _ \<Rightarrow> category p \<noteq> Unknown)"
    and "list_all (\<lambda>p. category p \<noteq> Unknown \<longrightarrow>
            (\<forall>off. assign_off p off = Inr (Some (float_benefit p)))) ps"
  shows "(best_loop ps off m best = Inr best \<and> list_all (\<lambda>q. float_benefit q \<le> m) ps)
   \<or> (\<exists>pre b post. ps = pre @ b # post \<and> best_loop ps off m best = Inr (Some b)
         \<and> m < float_benefit b
         \<and> list_all (\<lambda>q. float_benefit q < float_benefit b) pre
         \<and> list_all (\<lambda>q. float_benefit q \<le> float_benefit b) post)"
  using assms
proof (induction ps arbitrary: off m best)
  case Nil
  then show ?case by simp
next
  case (Cons p ps)
  let ?f = float_benefit
  have dps: "list_all (\<lambda>p. category p \<noteq> Unknown \<longrightarrow>
            (\<forall>off. assign_off p off = Inr (Some (?f p)))) ps"
    using Cons.prems(4) by simp
  show ?case
  proof (cases "category p = Unknown")
    case True
    then obtain v where off: "off = Some v" and vm: "v \<le> m"
      using Cons.prems(2,3) by (cases off) auto
    have fp: "?f p = 0" using True by (rule float_benefit_Unknown)
    have step: "best_loop (p # ps) off m best = best_loop ps (Some v) m best"
      using assign_off_Unknown [OF True, of off] off vm by simp
    from Cons.IH [of m "Some v" best] Cons.prems(1) vm dps
    have "(best_loop ps (Some v) m best = Inr best \<and> list_all (\<lambda>q. ?f q \<le> m) ps)
       \<or> (\<exists>pre b post. ps = pre @ b # post \<and> best_loop ps (Some v) m best = Inr (Some b)
         \<and> m < ?f b \<and> list_all (\<lambda>q. ?f q < ?f b) pre \<and> list_all (\<lambda>q. ?f q \<le> ?f b) post)"
      by simp
    then show ?thesis
    proof (elim disjE exE conjE)
      assume "best_loop ps (Some v) m best = Inr best" "list_all (\<lambda>q. ?f q \<le> m) ps"
      then show ?thesis using step fp Cons.prems(1) by simp
    next
      fix pre b post
      assume ps: "ps = pre @ b # post"
        and r: "best_loop ps (Some v) m best = Inr (Some b)"
        and gt: "m < ?f b"
        and pre: "list_all (\<lambda>q. ?f q < ?f b) pre"
        and post: "list_all (\<lambda>q. ?f q \<le> ?f b) post"
      have "p # ps = (p # pre) @ b # post \<and> best_loop (p # ps) off m best = Inr (Some b)
         \<and> m < ?f b \<and> list_all (\<lambda>q. ?f q < ?f b) (p # pre)
         \<and> list_all (\<lambda>q. ?f q \<le> ?f b) post"
        using ps r gt pre post step fp Cons.prems(1) by simp
      then show ?thesis by blast
    qed
  next
    case False
    then have a: "assign_off p off = Inr (Some (?f p))"
      using Cons.prems(4) by simp
    show ?thesis
    proof (cases "?f p > m")
      case True
      then have step: "best_loop (p # ps) off m best
          = best_loop ps (Some (?f p)) (?f p) (Some p)"
        by (simp add: a)
      have "0 \<le> ?f p" using True Cons.prems(1) by simp
      from Cons.IH [of "?f p" "Some (?f p)" "Some p"] this dps
      have "(best_loop ps (Some (?f p)) (?f p) (Some p) = Inr (Some p)
            \<and> list_all (\<lambda>q. ?f q \<le> ?f p) ps)
       \<or> (\<exists>pre b post. ps = pre @ b # post
         \<and> best_loop ps (Some (?f p)) (?f p) (Some p) = Inr (Some b)
         \<and> ?f p < ?f b \<and> list_all (\<lambda>q. ?f q < ?f b) pre \<and> list_all (\<lambda>q. ?f q \<le> ?f b) post)"
        by simp
      then show ?thesis
      proof (elim disjE exE conjE)
        assume r: "best_loop ps (Some (?f p)) (?f p) (Some p) = Inr (Some p)"
          and le: "list_all (\<lambda>q. ?f q \<le> ?f p) ps"
        have "p # ps = [] @ p # ps \<and> best_loop (p # ps) off m best = Inr (Some p)
           \<and> m < ?f p \<and> list_all (\<lambda>q. ?f q < ?f p) []
           \<and> list_all (\<lambda>q. ?f q \<le> ?f p) ps"
          using r le True step by simp
        then show ?thesis by blast
      next
        fix pre b post
        assume ps: "ps = pre @ b # post"
          and r: "best_loop ps (Some (?f p)) (?f p) (Some p) = Inr (Some b)"
          and gt: "?f p < ?f b"
          and pre: "list_all (\<lambda>q. ?f q < ?f b) pre"
          and post: "list_all (\<lambda>q. ?f q \<le> ?f b) post"
        have "p # ps = (p # pre) @ b # post \<and> best_loop (p # ps) off m best = Inr (Some b)
           \<and> m < ?f b \<and> list_all (\<lambda>q. ?f q < ?f b) (p # pre)
           \<and> list_all (\<lambda>q. ?f q \<le> ?f b) post"
          using ps r gt pre post True step by simp
        then show ?thesis by blast
      qed
    next
      case False
      then have step: "best_loop (p # ps) off m best = best_loop ps (Some (?f p)) m best"
        by (simp add: a)
      from Cons.IH [of m "Some (?f p)" best] Cons.prems(1) False dps
      have "(best_loop ps (Some (?f p)) m best = Inr best \<and> list_all (\<lambda>q. ?f q \<le> m) ps)
       \<or> (\<exists>pre b post. ps = pre @ b # post
         \<and> best_loop ps (Some (?f p)) m best = Inr (Some b)
         \<and> m < ?f b \<and> list_all (\<lambda>q. ?f q < ?f b) pre \<and> list_all (\<lambda>q. ?f q \<le> ?f b) post)"
        by simp
      then show ?thesis
      proof (elim disjE exE conjE)
        assume r: "best_loop ps (Some (?f p)) m best = Inr best"
          and le: "list_all (\<lambda>q. ?f q \<le> m) ps"
        then show ?thesis using False step by simp
      next
        fix pre b post
        assume ps: "ps = pre @ b # post"
          and r: "best_loop ps (Some (?f p)) m best = Inr (Some b)"
          and gt: "m < ?f b"
          and pre: "list_all (\<lambda>q. ?f q < ?f b) pre"
          and post: "list_all (\<lambda>q. ?f q \<le> ?f b) post"
        have "p # ps = (p # pre) @ b # post \<and> best_loop (p # ps) off m best = Inr (Some b)
           \<and> m < ?f b \<and> list_all (\<lambda>q. ?f q < ?f b) (p # pre)
           \<and> list_all (\<lambda>q. ?f q \<le> ?f b) post"
          using ps r gt pre post False step by simp
        then show ?thesis by blast
      qed
    qed
  qed
qed

text \<open>
  C1, as the specification states it, fails. The selector raises, and returns nothing,
  on a candidate that is a BOGOF of amount 0 (\<open>ZeroDivisionError\<close>), on a first candidate
  of category Unknown (\<open>UnboundLocalError\<close>) and on an amount too large for a float
  (\<open>OverflowError\<close>). And the benefit it compares is the float, not the exact quotient:
  of two BOGOF candidates of amounts \<open>2 ^ 53 + 1\<close> and \<open>2 ^ 53\<close>, in this order, the second
  has the greater benefit \<open>1 / amount\<close>, but the two floats are equal and the first
  candidate is returned.
\<close>

theorem best_promotion_counterexample:
  "find_best_promotion_for_product 7 feb1 feb1 [bogof0] = Inl ZeroDivisionError
   \<and> find_best_promotion_for_product 7 feb1 feb1 [unknown5, bogof4] = Inl UnboundLocalError
   \<and> find_best_promotion_for_product 7 feb1 feb1 [discount_huge] = Inl OverflowError
   \<and> find_best_promotion_for_product 7 feb1 feb1 [bogof_odd, bogof_even] = Inr (Some bogof_odd)
   \<and> spec_benefit bogof_odd < spec_benefit bogof_even"
proof -
  have l: "promotion_list 7 feb1 feb1 [bogof0] = [bogof0]"
    "promotion_list 7 feb1 feb1 [unknown5, bogof4] = [unknown5, bogof4]"
    "promotion_list 7 feb1 feb1 [discount_huge] = [discount_huge]"
    "promotion_list 7 feb1 feb1 [bogof_odd, bogof_even] = [bogof_odd, bogof_even]"
    by (simp_all add: promotion_list_def bogof0_def unknown5_def bogof4_def discount_huge_def
        bogof_odd_def bogof_even_def promo_def jan1_def feb1_def mar1_def
        dt_le_def dt_ge_def dt_key_def)
  have z: "float_of_int 0 = Inr 0"
    by (simp add: float_of_int_def nearest_double_def)
  have 1: "assign_off bogof0 off = Inl ZeroDivisionError" for off
    by (simp add: assign_off_def bogof0_def promo_def z)
  have 2: "assign_off unknown5 None = Inr None"
    by (simp add: assign_off_def unknown5_def promo_def)
  have 3: "assign_off discount_huge off = Inl OverflowError" for off
    by (simp add: assign_off_def discount_huge_def promo_def float_of_int_def)
  have 4: "assign_off bogof_odd off = Inr (Some (1 / 9007199254740992))" for off
    by (simp add: assign_off_def bogof_odd_def promo_def float_of_int_def
        float_odd float_1_even)
  have 5: "assign_off bogof_even off = Inr (Some (1 / 9007199254740992))" for off
    by (simp add: assign_off_def bogof_even_def promo_def float_of_int_def
        float_even float_1_even)
  have 6: "spec_benefit bogof_odd < spec_benefit bogof_even"
    by (simp add: spec_benefit_def bogof_odd_def bogof_even_def promo_def)
  show ?thesis
    using 6 by (simp add: find_best_promotion_for_product_def l 1 2 3 4 5)
qed

text \<open>
  C1, amended. At one instant \<open>now\<close>, the candidates are the rows of the product whose
  window contains \<open>now\<close>, in table order. The benefit of a candidate is \<open>amount / 100\<close>
  for a Discount and \<open>1 / amount\<close> for a BOGOF, computed in Python's floats (the amount
  converted to a double, then one division rounded to the nearest double); an Unknown
  candidate has none (\<open>0\<close> below). Provided the first candidate is not Unknown, no
  candidate is a BOGOF of amount 0, and the amount of every candidate that is not Unknown
  is small enough for a float (below \<open>2 ^ 1024 - 2 ^ 970\<close> in absolute value), the
  selector raises nothing and returns either nothing, when no candidate has a positive
  benefit (in particular when there is no candidate), or a candidate \<open>b\<close> of positive
  benefit such that every candidate before it has a strictly smaller benefit and every
  candidate after it has a benefit that is not greater: the first candidate of maximal
  benefit.
\<close>

theorem best_promotion:
  assumes "case filter (\<lambda>r. product_id r = pid \<and> spec_active now r) tbl of
             [] \<Rightarrow> True
           | p # _ \<Rightarrow> category p \<noteq> Unknown"
    and "\<forall>p \<in> set tbl. product_id p = pid \<and> spec_active now p \<and> category p \<noteq> Unknown \<longrightarrow>
             \<not> (category p = BOGOF \<and> amount p = 0) \<and> \<bar>amount p\<bar> < 2 ^ 1024 - 2 ^ 970"
  shows "(find_best_promotion_for_product pid now now tbl = Inr None
            \<and> (\<forall>q \<in> set tbl. product_id q = pid \<and> spec_active now q \<longrightarrow> float_benefit q \<le> 0))
       \<or> (\<exists>pre b post.
            filter (\<lambda>r. product_id r = pid \<and> spec_active now r) tbl = pre @ b # post
            \<and> find_best_promotion_for_product pid now now tbl = Inr (Some b)
            \<and> 0 < float_benefit b
            \<and> (\<forall>q \<in> set pre. float_benefit q < float_benefit b)
            \<and> (\<forall>q \<in> set post. float_benefit q \<le> float_benefit b))"
proof -
  let ?c = "filter (\<lambda>r. product_id r = pid \<and> spec_active now r) tbl"
  have d: "list_all (\<lambda>p. category p \<noteq> Unknown \<longrightarrow>
            (\<forall>off. assign_off p off = Inr (Some (float_benefit p)))) ?c"
    using assms(2) by (auto simp: list_all_iff intro!: assign_off_float)
  have "(best_loop ?c None 0 None = Inr None \<and> list_all (\<lambda>q. float_benefit q \<le> 0) ?c)
   \<or> (\<exists>pre b post. ?c = pre @ b # post \<and> best_loop ?c None 0 None = Inr (Some b)
         \<and> 0 < float_benefit b
         \<and> list_all (\<lambda>q. float_benefit q < float_benefit b) pre
         \<and> list_all (\<lambda>q. float_benefit q \<le> float_benefit b) post)"
    by (rule best_loop_spec) (use assms(1) d in simp_all)
  then show ?thesis
    unfolding find_best_promotion_for_product_def promotion_list_now list_all_iff
    by auto
qed

lemma assign_off_discount30:
  "assign_off discount30 off = Inr (Some (5404319552844595 / 18014398509481984))"
  by (simp add: assign_off_def discount30_def promo_def float_of_int_def
      float_30 float_30_100)

lemma assign_off_bogof4: "assign_off bogof4 off = Inr (Some (1 / 4))"
  by (simp add: assign_off_def bogof4_def promo_def float_of_int_def
      float_4 float_1_4)

lemma assign_off_unknown5: "assign_off unknown5 off = Inr off"
  by (simp add: assign_off_def unknown5_def promo_def)

theorem best_promotion_witness:
  "find_best_promotion_for_product 7 feb1 feb1 [ended, bogof4, unknown5, discount30]
     = Inr (Some discount30)"
proof -
  have l: "promotion_list 7 feb1 feb1 [ended, bogof4, unknown5, discount30]
      = [bogof4, unknown5, discount30]"
    by (simp add: promotion_list_def ended_def bogof4_def unknown5_def discount30_def
        promo_def jan1_def feb1_def mar1_def dt_le_def dt_ge_def dt_key_def)
  have c: "filter (\<lambda>r. product_id r = 7 \<and> spec_active feb1 r)
      [ended, bogof4, unknown5, discount30] = [bogof4, unknown5, discount30]"
    unfolding promotion_list_now [symmetric] by (rule l)
  have h1: "case filter (\<lambda>r. product_id r = 7 \<and> spec_active feb1 r)
      [ended, bogof4, unknown5, discount30] of
             [] \<Rightarrow> True
           | p # _ \<Rightarrow> category p \<noteq> Unknown"
    unfolding c by (simp add: bogof4_def promo_def)
  have h2: "\<forall>p \<in> set [ended, bogof4, unknown5, discount30].
      product_id p = 7 \<and> spec_active feb1 p \<and> category p \<noteq> Unknown \<longrightarrow>
             \<not> (category p = BOGOF \<and> amount p = 0) \<and> \<bar>amount p\<bar> < 2 ^ 1024 - 2 ^ 970"
    by (simp add: ended_def bogof4_def unknown5_def discount30_def promo_def)
  show ?thesis
    using best_promotion [OF h1 h2]
    by (simp add: find_best_promotion_for_product_def l assign_off_bogof4
        assign_off_discount30 assign_off_unknown5)
qed

section \<open>A candidate of category Unknown\<close>

lemma assign_off_raises:
  "assign_off p off = Inl e \<Longrightarrow> e = OverflowError \<or> e = ZeroDivisionError"
  by (auto simp: assign_off_def dest: float_of_int_raises split: if_splits sum.splits)

lemma assign_off_known:
  "category p \<noteq> Unknown \<Longrightarrow> assign_off p off = Inr r \<Longrightarrow> \<exists>v. r = Some v"
  by (cases "category p") (auto simp: assign_off_def split: if_splits sum.splits)

lemma best_loop_bound:
  "best_loop ps (Some v) m best \<noteq> Inl UnboundLocalError"
proof (induction ps arbitrary: v m best)
  case Nil
  show ?case by simp
next
  case (Cons p ps)
  show ?case
  proof (cases "assign_off p (Some v)")
    case (Inl e)
    then show ?thesis using assign_off_raises [OF Inl] by auto
  next
    case (Inr r)
    then obtain w where "r = Some w"
      by (cases "category p = Unknown") (auto simp: assign_off_def dest: assign_off_known)
    then show ?thesis using Inr Cons.IH by simp
  qed
qed

lemma best_loop_first:
  "best_loop (p # ps) None m best = Inl UnboundLocalError \<longleftrightarrow> category p = Unknown"
proof (cases "category p = Unknown")
  case True
  then show ?thesis by (simp add: assign_off_def)
next
  case False
  show ?thesis
  proof (cases "assign_off p None")
    case (Inl e)
    then show ?thesis using assign_off_raises [OF Inl] False by auto
  next
    case (Inr r)
    then obtain w where "r = Some w" using assign_off_known [OF False] by blast
    then show ?thesis using Inr False best_loop_bound by simp
  qed
qed

lemma best_loop_never_Unknown:
  "(\<forall>v. off = Some v \<longrightarrow> v \<le> m) \<Longrightarrow> best_loop ps off m best = Inr (Some b) \<Longrightarrow>
     best = Some b \<or> (b \<in> set ps \<and> category b \<noteq> Unknown)"
proof (induction ps arbitrary: off m best)
  case Nil
  then show ?case by simp
next
  case (Cons p ps)
  show ?case
  proof (cases "category p = Unknown")
    case True
    then have a: "assign_off p off = Inr off" by (simp add: assign_off_def)
    show ?thesis
    proof (cases off)
      case None
      then show ?thesis using Cons.prems(2) a by simp
    next
      case (Some v)
      then have "v \<le> m" using Cons.prems(1) by simp
      then have "best_loop (p # ps) off m best = best_loop ps (Some v) m best"
        using a Some by simp
      then have "best = Some b \<or> (b \<in> set ps \<and> category b \<noteq> Unknown)"
        using Cons.IH [of "Some v" m best] Cons.prems(2) \<open>v \<le> m\<close> by simp
      then show ?thesis by auto
    qed
  next
    case False
    show ?thesis
    proof (cases "assign_off p off")
      case (Inl e)
      then show ?thesis using Cons.prems(2) by simp
    next
      case (Inr o1)
      then obtain v where o1: "o1 = Some v"
        using assign_off_known [OF False] by blast
      show ?thesis
      proof (cases "v > m")
        case True
        then have "best_loop (p # ps) off m best = best_loop ps (Some v) v (Some p)"
          using Inr o1 by simp
        then have "Some p = Some b \<or> (b \<in> set ps \<and> category b \<noteq> Unknown)"
          using Cons.IH [of "Some v" v "Some p"] Cons.prems(2) by simp
        then show ?thesis using False by auto
      next
        case False
        then have "best_loop (p # ps) off m best = best_loop ps (Some v) m best"
          using Inr o1 by simp
        then have "best = Some b \<or> (b \<in> set ps \<and> category b \<noteq> Unknown)"
          using Cons.IH [of "Some v" m best] Cons.prems(2) False by simp
        then show ?thesis by auto
      qed
    qed
  qed
qed

text \<open>
  C7, as the specification states it, fails: an Unknown candidate that is considered
  after a Discount candidate reads the benefit the Discount left in \<open>off\<close>; nothing is
  raised and the Discount is returned.
\<close>

theorem unknown_candidate_counterexample:
  "promotion_list 7 feb1 feb1 [discount30, unknown5] = [discount30, unknown5]
   \<and> category unknown5 = Unknown
   \<and> find_best_promotion_for_product 7 feb1 feb1 [discount30, unknown5]
       = Inr (Some discount30)"
proof -
  have l: "promotion_list 7 feb1 feb1 [discount30, unknown5] = [discount30, unknown5]"
    by (simp add: promotion_list_def unknown5_def discount30_def promo_def
        jan1_def feb1_def mar1_def dt_le_def dt_ge_def dt_key_def)
  have c: "category unknown5 = Unknown"
    by (simp add: unknown5_def promo_def)
  show ?thesis
    using l c
    by (simp add: find_best_promotion_for_product_def assign_off_discount30
        assign_off_unknown5)
qed

text \<open>
  C7, amended. Neither branch of the selector assigns a benefit to a candidate of
  category Unknown. The comparison reads an unassigned variable (\<open>UnboundLocalError\<close>)
  exactly when the first candidate is Unknown. An Unknown candidate that comes later is
  compared with the benefit of the candidate before it, which never exceeds the running
  maximum: a promotion the selector returns is a candidate and is never Unknown.
\<close>

theorem unknown_candidate:
  "(find_best_promotion_for_product pid n1 n2 tbl = Inl UnboundLocalError
      \<longleftrightarrow> (case promotion_list pid n1 n2 tbl of [] \<Rightarrow> False | p # _ \<Rightarrow> category p = Unknown))
   \<and> (\<forall>b. find_best_promotion_for_product pid n1 n2 tbl = Inr (Some b) \<longrightarrow>
          b \<in> set (promotion_list pid n1 n2 tbl) \<and> category b \<noteq> Unknown)"
proof -
  have 1: "find_best_promotion_for_product pid n1 n2 tbl = Inl UnboundLocalError
      \<longleftrightarrow> (case promotion_list pid n1 n2 tbl of [] \<Rightarrow> False | p # _ \<Rightarrow> category p = Unknown)"
    unfolding find_best_promotion_for_product_def
    by (cases "promotion_list pid n1 n2 tbl")
       (simp_all add: best_loop_first del: best_loop.simps(2))
  have 2: "b \<in> set (promotion_list pid n1 n2 tbl) \<and> category b \<noteq> Unknown"
    if "find_best_promotion_for_product pid n1 n2 tbl = Inr (Some b)" for b
    using best_loop_never_Unknown [of None 0 "promotion_list pid n1 n2 tbl" None b] that
    unfolding find_best_promotion_for_product_def by simp
  show ?thesis using 1 2 by blast
qed

theorem unknown_candidate_witness:
  "find_best_promotion_for_product 7 feb1 feb1 [unknown5, discount30] = Inl UnboundLocalError
   \<and> find_best_promotion_for_product 7 feb1 feb1 [bogof4, unknown5, discount30]
       = Inr (Some discount30)"
proof -
  have l: "promotion_list 7 feb1 feb1 [unknown5, discount30] = [unknown5, discount30]"
    "promotion_list 7 feb1 feb1 [bogof4, unknown5, discount30] = [bogof4, unknown5, discount30]"
    by (simp_all add: promotion_list_def unknown5_def discount30_def bogof4_def promo_def
        jan1_def feb1_def mar1_def dt_le_def dt_ge_def dt_key_def)
  show ?thesis
    using unknown_candidate [of 7 feb1 feb1 "[unknown5, discount30]"]
      unknown_candidate [of 7 feb1 feb1 "[bogof4, unknown5, discount30]"]
    by (simp add: find_best_promotion_for_product_def l assign_off_bogof4
        assign_off_discount30 assign_off_unknown5)
qed

section \<open>Timestamps as text\<close>

lemma digit_of_digit_char: "k < 10 \<Longrightarrow> digit_of (digit_char k) = Some k"
  by (simp add: digit_of_def digit_char_def)

lemma digit_of_zero: "digit_of CHR ''0'' = Some 0"
  by (simp add: digit_of_def)

lemma digits_value_append:
  "digits_value acc (xs @ ys) =
     (case digits_value acc xs of None \<Rightarrow> None | Some a \<Rightarrow> digits_value a ys)"
  by (induction xs arbitrary: acc) (simp_all split: option.splits)

lemma digits_value_dec:
  "digits_value acc (dec n) = Some (acc * 10 ^ length (dec n) + n)"
proof (induction n arbitrary: acc rule: dec.induct)
  case (1 n)
  show ?case
  proof (cases "n < 10")
    case True
    then show ?thesis
      by (subst (1 2) dec.simps) (simp add: digit_of_digit_char)
  next
    case False
    have m: "n mod 10 < 10" by simp
    have "digits_value acc (dec n)
        = digits_value (acc * 10 ^ length (dec (n div 10)) + n div 10) [digit_char (n mod 10)]"
      using False by (subst dec.simps) (simp add: digits_value_append "1.IH")
    also have "\<dots> = Some (10 * (acc * 10 ^ length (dec (n div 10)) + n div 10) + n mod 10)"
      by (simp add: digit_of_digit_char [OF m])
    also have "\<dots> = Some (acc * 10 ^ length (dec n) + n)"
      using False by (subst (2) dec.simps) (simp add: algebra_simps)
    finally show ?thesis .
  qed
qed

lemma digits_value_zeros: "digits_value 0 (replicate k CHR ''0'' @ xs) = digits_value 0 xs"
  by (induction k) (simp_all add: digit_of_zero)

lemma length_dec: "0 < w \<Longrightarrow> n < 10 ^ w \<Longrightarrow> length (dec n) \<le> w"
proof (induction n arbitrary: w rule: dec.induct)
  case (1 n)
  show ?case
  proof (cases "n < 10")
    case True
    then show ?thesis using "1.prems" by (subst dec.simps) simp
  next
    case False
    then obtain v where w: "w = Suc v" using "1.prems" by (cases w) auto
    have "v \<noteq> 0" using False "1.prems" w by (cases v) auto
    moreover have "n div 10 < 10 ^ v" using "1.prems" w by (simp add: less_mult_imp_div_less mult.commute)
    ultimately have "length (dec (n div 10)) \<le> v"
      using "1.IH" [of v] False by simp
    then show ?thesis using False w by (subst dec.simps) simp
  qed
qed

lemma length_pad: "0 < w \<Longrightarrow> n < 10 ^ w \<Longrightarrow> length (pad w n) = w"
  using length_dec [of w n] by (simp add: pad_def)

lemma digits_value_pad: "digits_value 0 (pad w n) = Some n"
  by (simp add: pad_def digits_value_zeros digits_value_dec)

lemma parse_field_at:
  "length f = w \<Longrightarrow> parse_field (pre @ f @ post) (length pre) w = digits_value 0 f"
  by (simp add: parse_field_def)

lemma sep_at_app: "sep_at (pre @ c # post) (length pre) c"
  by (simp add: sep_at_def)

lemma parse_date_fields:
  "length Y = 4 \<Longrightarrow> length M = 2 \<Longrightarrow> length D = 2 \<Longrightarrow>
   digits_value 0 Y = Some y \<Longrightarrow> digits_value 0 M = Some m \<Longrightarrow> digits_value 0 D = Some d \<Longrightarrow>
   parse_isoformat_date (Y @ ''-'' @ M @ ''-'' @ D) = Some (y, m, d)"
  by (simp add: parse_isoformat_date_def parse_field_def sep_at_def nth_append)

lemma parse_time_fields:
  "length H = 2 \<Longrightarrow> length M = 2 \<Longrightarrow> length S = 2 \<Longrightarrow>
   digits_value 0 H = Some h \<Longrightarrow> digits_value 0 M = Some m \<Longrightarrow> digits_value 0 S = Some s \<Longrightarrow>
   parse_isoformat_time (H @ '':'' @ M @ '':'' @ S) = Some (h, m, s, 0)"
  by (simp add: parse_isoformat_time_def parse_field_def sep_at_def nth_append Let_def)

lemma parse_time_fields_frac:
  "length H = 2 \<Longrightarrow> length M = 2 \<Longrightarrow> length S = 2 \<Longrightarrow> length F = 6 \<Longrightarrow>
   digits_value 0 H = Some h \<Longrightarrow> digits_value 0 M = Some m \<Longrightarrow> digits_value 0 S = Some s \<Longrightarrow>
   digits_value 0 F = Some f \<Longrightarrow>
   parse_isoformat_time (H @ '':'' @ M @ '':'' @ S @ ''.'' @ F) = Some (h, m, s, f)"
  by (simp add: parse_isoformat_time_def parse_field_def sep_at_def nth_append Let_def)

lemma fromisoformat_isoformat:
  assumes v: "valid_datetime d"
  shows "fromisoformat (isoformat d) = Inr d"
proof -
  let ?Y = "pad 4 (year d)" and ?M = "pad 2 (month d)" and ?D = "pad 2 (day d)"
  let ?H = "pad 2 (hour d)" and ?Mi = "pad 2 (minute d)" and ?S = "pad 2 (second d)"
  let ?F = "pad 6 (microsecond d)"
  have dm: "days_in_month (year d) (month d) \<le> 31"
    by (simp add: days_in_month_def)
  have lY: "length ?Y = 4" using v by (intro length_pad) (simp_all add: valid_datetime_def)
  have lM: "length ?M = 2" using v by (intro length_pad) (simp_all add: valid_datetime_def)
  have lD: "length ?D = 2" using v dm by (intro length_pad) (simp_all add: valid_datetime_def)
  have lH: "length ?H = 2" using v by (intro length_pad) (simp_all add: valid_datetime_def)
  have lMi: "length ?Mi = 2" using v by (intro length_pad) (simp_all add: valid_datetime_def)
  have lS: "length ?S = 2" using v by (intro length_pad) (simp_all add: valid_datetime_def)
  have lF: "length ?F = 6" using v by (intro length_pad) (simp_all add: valid_datetime_def)
  define date where "date = ?Y @ ''-'' @ ?M @ ''-'' @ ?D"
  define time where "time = ?H @ '':'' @ ?Mi @ '':'' @ ?S
      @ (if microsecond d = 0 then [] else ''.'' @ ?F)"
  have iso: "isoformat d = date @ CHR ''T'' # time"
    by (simp add: isoformat_def date_def time_def)
  have ld: "length date = 10" by (simp add: date_def lY lM lD)
  have t10: "take 10 (isoformat d) = date"
    unfolding iso using ld by simp
  have d11: "drop 11 (isoformat d) = time"
    unfolding iso using ld by simp
  have len: "10 < length (isoformat d)"
    unfolding iso using ld by simp
  have pd: "parse_isoformat_date date = Some (year d, month d, day d)"
    unfolding date_def
    by (rule parse_date_fields) (simp_all add: lY lM lD digits_value_pad)
  have pt: "parse_isoformat_time time = Some (hour d, minute d, second d, microsecond d)"
  proof (cases "microsecond d = 0")
    case True
    have "parse_isoformat_time (?H @ '':'' @ ?Mi @ '':'' @ ?S)
        = Some (hour d, minute d, second d, 0)"
      by (rule parse_time_fields) (simp_all add: lH lMi lS digits_value_pad)
    then show ?thesis using True by (simp add: time_def)
  next
    case False
    have "parse_isoformat_time (?H @ '':'' @ ?Mi @ '':'' @ ?S @ ''.'' @ ?F)
        = Some (hour d, minute d, second d, microsecond d)"
      by (rule parse_time_fields_frac) (simp_all add: lH lMi lS lF digits_value_pad)
    then show ?thesis using False by (simp add: time_def)
  qed
  have r: "\<lparr>year = year d, month = month d, day = day d, hour = hour d, minute = minute d,
      second = second d, microsecond = microsecond d\<rparr> = d"
    by simp
  show ?thesis
    using len v
    by (simp add: fromisoformat_def t10 d11 pd pt make_datetime_def r Let_def)
qed


section \<open>The codec\<close>

lemma fromisoformat_garbage: "fromisoformat ''not-a-date'' = Inl ValueError"
  by (simp add: fromisoformat_def parse_isoformat_date_def parse_field_def digit_of_def)

lemma isoformat_nonempty: "isoformat d \<noteq> []"
  by (simp add: isoformat_def)

lemma getattr_name_of: "getattr_TypeOfPromo (PStr (name_of c)) = Inr (PEnum c)"
  by (cases c)
     (simp_all add: getattr_TypeOfPromo_def name_of_def TypeOfPromo_attributes_def
        TypeOfPromo_members_def)


text \<open>
  What can leave \<^verbatim>\<open>deserialize\<close>: a validation error with one of the three messages,
  or the \<^verbatim>\<open>ValueError\<close> of a date that does not parse.
\<close>

lemma assign_item_raises:
  "assign_item k data self = (self', Some e) \<Longrightarrow> e = KeyError k \<or> e = TypeError"
  by (auto simp: assign_item_def subscript_def split: sum.splits pyval.splits option.splits)

lemma assign_category_raises:
  "assign_category data self = (self', Some e) \<Longrightarrow>
     e = KeyError ''category'' \<or> e = TypeError \<or> (\<exists>a. e = AttributeError a)"
  by (auto simp: assign_category_def subscript_def getattr_TypeOfPromo_def
      split: sum.splits pyval.splits option.splits)

lemma fromisoformat_raises: "fromisoformat s = Inl e \<Longrightarrow> e = ValueError"
  by (auto simp: fromisoformat_def make_datetime_def Let_def split: if_splits option.splits)

lemma assign_date_raises:
  "assign_date k data self = (self', Some e) \<Longrightarrow>
     e = KeyError k \<or> e = TypeError \<or> e = ValueError"
  by (auto simp: assign_date_def subscript_def dest: fromisoformat_raises
      split: sum.splits pyval.splits option.splits if_splits)

lemma run_steps_raises:
  "run_steps fs self = (self', Some e) \<Longrightarrow>
     \<exists>f s s'. f \<in> set fs \<and> f s = (s', Some e)"
proof (induction fs arbitrary: self)
  case Nil
  then show ?case by simp
next
  case (Cons f fs)
  show ?case
  proof (cases "f self")
    case (Pair s1 r)
    show ?thesis
    proof (cases r)
      case None
      then have "run_steps fs s1 = (self', Some e)" using Cons.prems Pair by simp
      from Cons.IH [OF this] show ?thesis by auto
    next
      case (Some e1)
      then have "e1 = e" using Cons.prems Pair by simp
      then have "f self = (s1, Some e)" using Pair Some by simp
      then show ?thesis by auto
    qed
  qed
qed

lemma deserialize_raises:
  assumes "snd (deserialize self data) = Some e"
  shows "e = ValueError
       \<or> (\<exists>k. e = DataValidationError (''Invalid Promotion: missing '' @ k))
       \<or> (\<exists>a. e = DataValidationError (''Invalid attribute: '' @ a))
       \<or> e = DataValidationError ''Invalid Promotion: body of request contained bad or no data''"
proof -
  obtain s1 e1 where t: "try_body data self = (s1, Some e1)" and e: "e = except_clauses e1"
    using assms by (auto simp: deserialize_def split: prod.splits option.splits)
  from run_steps_raises [OF t [unfolded try_body_def]]
  have "(\<exists>k. e1 = KeyError k) \<or> e1 = TypeError \<or> (\<exists>a. e1 = AttributeError a) \<or> e1 = ValueError"
    by (auto dest: assign_item_raises assign_category_raises assign_date_raises)
  then show ?thesis
    unfolding e by (auto simp: except_clauses_def)
qed

text \<open>
  C3. A body whose \<^verbatim>\<open>from_date\<close> is a string that is no ISO 8601 date makes
  \<^verbatim>\<open>fromisoformat\<close> raise \<^verbatim>\<open>ValueError\<close>, which none of the three \<^verbatim>\<open>except\<close>
  clauses catches: it leaves \<^verbatim>\<open>deserialize\<close> as it is, not as a validation error.
\<close>

theorem deserialize_bad_date:
  "snd (deserialize Map.empty bad_date_body) = Some ValueError"
  by (simp add: deserialize_def try_body_def assign_item_def assign_category_def assign_date_def
      subscript_def getattr_TypeOfPromo_def TypeOfPromo_attributes_def TypeOfPromo_members_def
      bad_date_body_def fromisoformat_garbage except_clauses_def)


text \<open>
  C4. For a promotion \<open>p\<close> of the schema's types whose two dates are datetimes,
  \<^verbatim>\<open>deserialize\<close> applied to \<^verbatim>\<open>serialize(p)\<close> raises nothing and leaves the seven
  attributes \<open>product_name\<close>, \<open>category\<close>, \<open>product_id\<close>, \<open>amount\<close>, \<open>description\<close>,
  \<open>from_date\<close> and \<open>to_date\<close> holding the values of \<open>p\<close>; the attribute \<open>id\<close> of the
  instance is not touched, whatever \<open>p\<close>'s id is.
\<close>

theorem serialize_deserialize:
  assumes "valid_datetime (from_date p)" and "valid_datetime (to_date p)"
  shows "deserialize self (PDict (serialize p)) =
     (self(''product_name'' \<mapsto> PStr (product_name p),
           ''category'' \<mapsto> PEnum (category p),
           ''product_id'' \<mapsto> PInt (product_id p),
           ''amount'' \<mapsto> PInt (amount p),
           ''description'' \<mapsto> (case description p of None \<Rightarrow> PNone | Some s \<Rightarrow> PStr s),
           ''from_date'' \<mapsto> PDatetime (from_date p),
           ''to_date'' \<mapsto> PDatetime (to_date p)), None)
   \<and> fst (deserialize self (PDict (serialize p))) ''id'' = self ''id''"
proof -
  have s: "subscript (PDict (serialize p)) ''product_name'' = Inr (PStr (product_name p))"
    "subscript (PDict (serialize p)) ''category'' = Inr (PStr (name_of (category p)))"
    "subscript (PDict (serialize p)) ''product_id'' = Inr (PInt (product_id p))"
    "subscript (PDict (serialize p)) ''amount'' = Inr (PInt (amount p))"
    "subscript (PDict (serialize p)) ''description''
       = Inr (case description p of None \<Rightarrow> PNone | Some s \<Rightarrow> PStr s)"
    "subscript (PDict (serialize p)) ''from_date'' = Inr (PStr (isoformat (from_date p)))"
    "subscript (PDict (serialize p)) ''to_date'' = Inr (PStr (isoformat (to_date p)))"
    by (simp_all add: subscript_def serialize_def)
  have d: "deserialize self (PDict (serialize p)) =
     (self(''product_name'' \<mapsto> PStr (product_name p),
           ''category'' \<mapsto> PEnum (category p),
           ''product_id'' \<mapsto> PInt (product_id p),
           ''amount'' \<mapsto> PInt (amount p),
           ''description'' \<mapsto> (case description p of None \<Rightarrow> PNone | Some s \<Rightarrow> PStr s),
           ''from_date'' \<mapsto> PDatetime (from_date p),
           ''to_date'' \<mapsto> PDatetime (to_date p)), None)"
    by (simp add: deserialize_def try_body_def assign_item_def assign_category_def
        assign_date_def s getattr_name_of isoformat_nonempty
        fromisoformat_isoformat [OF assms(1)] fromisoformat_isoformat [OF assms(2)])
  show ?thesis unfolding d by simp
qed


theorem serialize_deserialize_witness:
  "snd (deserialize Map.empty (PDict (serialize discount30))) = None
   \<and> fst (deserialize Map.empty (PDict (serialize discount30))) ''category''
       = Some (PEnum Discount)
   \<and> fst (deserialize Map.empty (PDict (serialize discount30))) ''amount'' = Some (PInt 30)
   \<and> fst (deserialize Map.empty (PDict (serialize discount30))) ''from_date''
       = Some (PDatetime jan1)
   \<and> fst (deserialize Map.empty (PDict (serialize discount30))) ''to_date''
       = Some (PDatetime mar1)
   \<and> fst (deserialize Map.empty (PDict (serialize discount30))) ''id'' = None"
proof -
  have f: "valid_datetime (from_date discount30)"
    by (simp add: discount30_def promo_def jan1_def valid_datetime_def days_in_month_def)
  have t: "valid_datetime (to_date discount30)"
    by (simp add: discount30_def promo_def mar1_def valid_datetime_def days_in_month_def)
  show ?thesis
    using serialize_deserialize [OF f t, of Map.empty]
    by (simp add: discount30_def promo_def)
qed

end
